theory Spec2Isabelle
  imports Complex_Main "HOL-Library.Sublist"
begin

section \<open>Data model (src/types)\<close>

text \<open>
  JavaScript numbers are modelled as exact rationals: \<open>*\<close> and \<open>+\<close> are exact, and
  \<open>Number(x.toFixed(2))\<close> rounds the exact value to the nearest hundredth, a tie going
  away from zero (ECMAScript: the integer \<open>n\<close> closest to \<open>100 x\<close>, the larger one on
  a tie, after the sign has been split off). The binary rounding of IEEE doubles, NaN and
  the infinities are outside this model. Dates are milliseconds as integers.
\<close>

type_synonym number = rat

datatype ProductType = PHONE | PLAN | ADDON

record Product =
  id_pr :: string
  name_pr :: string
  type_pr :: ProductType
  price :: number
  requiresPhone :: "bool option"

record CartItem =
  id_ci :: string
  productId :: string
  productName :: string
  productType :: ProductType
  quantity :: number
  unitPrice :: number
  totalPrice :: number

record AddItemRequest =
  productId_req :: string
  productName_req :: string
  productType_req :: ProductType
  quantity_req :: number
  unitPrice_req :: number
  totalPrice_req :: number

record Cart =
  id_cart :: string
  items :: "CartItem list"
  subtotal :: number
  tax :: number
  total_cart :: number
  createdAt_cart :: int
  updatedAt_cart :: int

record ValidationResult =
  valid :: bool
  errors :: "string list"

record SalesforceContext =
  contextId :: string
  cartId :: string
  expiresAt :: int
  createdAt :: int

text \<open>The \<open>cart\<close> section of src/config: both values come from the environment.\<close>

record CartConfig =
  taxRate :: number
  maxItemsPerCart :: int

definition config :: CartConfig where
  "config = \<lparr>taxRate = 13 / 100, maxItemsPerCart = 50\<rparr>"

text \<open>
  What the services throw: \<open>new NotFoundError(resource, id)\<close> and the plain
  \<open>new Error(message)\<close>.
\<close>

datatype error = NotFoundError string string | Error string

section \<open>Cart utilities (src/utils/cart)\<close>

definition toFixed2 :: "number \<Rightarrow> number" where
  "toFixed2 x =
     (if x < 0 then - (of_int \<lfloor>(- x) * 100 + 1 / 2\<rfloor> / 100)
      else of_int \<lfloor>x * 100 + 1 / 2\<rfloor> / 100)"

definition isInteger :: "number \<Rightarrow> bool" where
  "isInteger x = (of_int \<lfloor>x\<rfloor> = x)"

text \<open>Decimal rendering of an integer, for the template strings of the messages.\<close>

fun show_nat :: "nat \<Rightarrow> string" where
  "show_nat n =
     (if n < 10 then [''0123456789'' ! n]
      else show_nat (n div 10) @ [''0123456789'' ! (n mod 10)])"

declare show_nat.simps [simp del]

definition show_int :: "int \<Rightarrow> string" where
  "show_int i = (if i < 0 then ''-'' @ show_nat (nat (- i)) else show_nat (nat i))"

definition calculateItemTotal :: "number \<Rightarrow> number \<Rightarrow> number" where
  "calculateItemTotal unitPrice' quantity' = toFixed2 (unitPrice' * quantity')"

definition calculateSubtotal :: "CartItem list \<Rightarrow> number" where
  "calculateSubtotal its = toFixed2 (foldl (\<lambda>sum item. sum + totalPrice item) 0 its)"

definition calculateTax :: "CartConfig \<Rightarrow> number \<Rightarrow> number" where
  "calculateTax cfg subtotal' = toFixed2 (subtotal' * taxRate cfg)"

definition calculateTotal :: "number \<Rightarrow> number \<Rightarrow> number" where
  "calculateTotal subtotal' tax' = toFixed2 (subtotal' + tax')"

definition msg_max_exceeded :: "CartConfig \<Rightarrow> string" where
  "msg_max_exceeded cfg =
     ''Cart exceeds maximum of '' @ show_int (maxItemsPerCart cfg) @ '' items''"

definition msg_plan_without_phone :: string where
  "msg_plan_without_phone = ''Cart contains plans but no phone. Plans require a phone.''"

definition msg_one_phone :: string where
  "msg_one_phone = ''Only one phone is allowed per cart''"

definition msg_one_plan :: string where
  "msg_one_plan = ''Only one plan is allowed per cart''"

definition msg_invalid_quantities :: string where
  "msg_invalid_quantities = ''Cart contains items with invalid quantities''"

definition msg_max_reached :: "CartConfig \<Rightarrow> string" where
  "msg_max_reached cfg =
     ''Cart has reached maximum of '' @ show_int (maxItemsPerCart cfg) @ '' items''"

text \<open>
  \<open>validateCartRules\<close> pushes onto one \<open>errors\<close> array, rule after rule; each
  \<open>errors\<^sub>i\<close> below is the array after the i-th rule.
\<close>

definition validateCartRules :: "CartConfig \<Rightarrow> CartItem list \<Rightarrow> ValidationResult" where
  "validateCartRules cfg its =
     (let errors0 = [];
          errors1 = (if int (length its) > maxItemsPerCart cfg
                     then errors0 @ [msg_max_exceeded cfg] else errors0);
          hasPhone = list_ex (\<lambda>item. productType item = PHONE) its;
          hasPlans = filter (\<lambda>item. productType item = PLAN) its;
          errors2 = (if length hasPlans > 0 \<and> \<not> hasPhone
                     then errors1 @ [msg_plan_without_phone] else errors1);
          phoneCount = length (filter (\<lambda>item. productType item = PHONE) its);
          errors3 = (if phoneCount > 1 then errors2 @ [msg_one_phone] else errors2);
          errors4 = (if length hasPlans > 1 then errors3 @ [msg_one_plan] else errors3);
          invalidQuantities =
            filter (\<lambda>item. quantity item \<le> 0 \<or> \<not> isInteger (quantity item)) its;
          errors5 = (if length invalidQuantities > 0
                     then errors4 @ [msg_invalid_quantities] else errors4)
      in \<lparr>valid = (length errors5 = 0), errors = errors5\<rparr>)"

record CanAdd =
  allowed :: bool
  reason :: "string option"

definition canAddItemType :: "CartConfig \<Rightarrow> CartItem list \<Rightarrow> ProductType \<Rightarrow> CanAdd" where
  "canAddItemType cfg its productType' =
     (if int (length its) \<ge> maxItemsPerCart cfg
      then \<lparr>allowed = False, reason = Some (msg_max_reached cfg)\<rparr>
      else if productType' = PHONE
              \<and> length (filter (\<lambda>item. productType item = PHONE) its) \<ge> 1
      then \<lparr>allowed = False, reason = Some msg_one_phone\<rparr>
      else if productType' = PLAN
              \<and> length (filter (\<lambda>item. productType item = PLAN) its) \<ge> 1
      then \<lparr>allowed = False, reason = Some msg_one_plan\<rparr>
      else \<lparr>allowed = True, reason = None\<rparr>)"

section \<open>The two services and their shared objects\<close>

text \<open>
  Both services keep JavaScript objects by reference: the context returned by
  \<open>createContext\<close> is the very object stored in the client's \<open>contexts\<close> map and in
  the cart service's \<open>contextCache\<close>, and the array returned by \<open>getCartItems\<close> is the
  very array of the client's \<open>cartItems\<close> map, which \<open>getCart\<close> then stores in
  \<open>shadowState\<close>. The maps therefore hold references, and the objects live in two
  stores: \<open>ctxObjs\<close> for context objects and \<open>arrays\<close> for item arrays, each with
  its allocation counter. \<open>draws\<close> counts the calls of \<open>nanoid\<close> so far.

  \<^item> \<open>contexts\<close>, \<open>cartItems\<close>, \<open>contextTTL\<close>: fields of \<open>SalesforceCartClient\<close>;
  \<^item> \<open>contextCache\<close>, \<open>shadowState\<close>: fields of \<open>CartService\<close>.
\<close>

type_synonym ref = nat

record World =
  ctxObjs :: "ref \<Rightarrow> SalesforceContext"
  nextCtx :: ref
  arrays :: "ref \<Rightarrow> CartItem list"
  nextArr :: ref
  draws :: nat
  contexts :: "string \<rightharpoonup> ref"
  cartItems :: "string \<rightharpoonup> ref"
  contextTTL :: int
  contextCache :: "string \<rightharpoonup> ref"
  shadowState :: "string \<rightharpoonup> ref"

text \<open>
  \<open>new SalesforceCartClient(contextTTL)\<close> and \<open>new CartService(sfClient)\<close>: empty maps
  and no object allocated yet.
\<close>

definition newWorld :: "int \<Rightarrow> World" where
  "newWorld ttl =
     \<lparr>ctxObjs = (\<lambda>_. \<lparr>contextId = [], cartId = [], expiresAt = 0, createdAt = 0\<rparr>),
      nextCtx = 0, arrays = (\<lambda>_. []), nextArr = 0, draws = 0,
      contexts = Map.empty, cartItems = Map.empty, contextTTL = ttl,
      contextCache = Map.empty, shadowState = Map.empty\<rparr>"

text \<open>
  \<open>nanoid\<close> is an external library: the operations take it as the parameter \<open>gen\<close>,
  which maps the requested size and the number of earlier calls to the string returned.
  The clock is the parameter \<open>now\<close>: every \<open>new Date()\<close> of one call reads the same
  instant.
\<close>

type_synonym nanoid = "nat \<Rightarrow> nat \<Rightarrow> string"

text \<open>
  \<open>xs.findIndex(p)\<close>: the first index whose element satisfies \<open>p\<close>; \<open>None\<close> is the
  source's \<open>-1\<close>.
\<close>

fun findIndex :: "('a \<Rightarrow> bool) \<Rightarrow> 'a list \<Rightarrow> nat option" where
  "findIndex p [] = None"
| "findIndex p (x # xs) =
     (if p x then Some 0 else (case findIndex p xs of None \<Rightarrow> None | Some i \<Rightarrow> Some (Suc i)))"

text \<open>
  \<open>this.cartItems.get(contextId) || []\<close> and \<open>this.shadowState.get(cartId) || []\<close>
  yield the stored array or a brand-new empty one. The new array enters \<open>arrays\<close> only
  where the source goes on to store it; until then it is the value \<open>[]\<close>.
\<close>

definition deref :: "World \<Rightarrow> ref option \<Rightarrow> CartItem list" where
  "deref w r = (case r of None \<Rightarrow> [] | Some a \<Rightarrow> arrays w a)"

subsection \<open>SalesforceCartClient (the context provider)\<close>

text \<open>
  The methods the cart service calls, and \<open>expireContext\<close>. \<open>clearContext\<close>,
  \<open>cleanupExpiredContexts\<close>, \<open>getContext\<close> and \<open>getActiveContextCount\<close> are called by
  no operation below and are left out.
\<close>

definition sf_createContext :: "nanoid \<Rightarrow> int \<Rightarrow> string \<Rightarrow> World \<Rightarrow> ref \<times> World" where
  "sf_createContext gen now cartId' w =
     (let contextId' = ''sf_ctx_'' @ gen 12 (draws w);
          expiresAt' = now + contextTTL w;
          context = \<lparr>contextId = contextId', cartId = cartId',
                     expiresAt = expiresAt', createdAt = now\<rparr>;
          c = nextCtx w;
          a = nextArr w
      in (c, w\<lparr>draws := draws w + 1,
               ctxObjs := (ctxObjs w)(c := context), nextCtx := c + 1,
               arrays := (arrays w)(a := []), nextArr := a + 1,
               contexts := (contexts w)(contextId' \<mapsto> c),
               cartItems := (cartItems w)(contextId' \<mapsto> a)\<rparr>))"

definition sf_isContextValid :: "int \<Rightarrow> string \<Rightarrow> World \<Rightarrow> bool" where
  "sf_isContextValid now contextId' w =
     (case contexts w contextId' of
        None \<Rightarrow> False
      | Some c \<Rightarrow> now < expiresAt (ctxObjs w c))"

definition sf_getCartItems :: "int \<Rightarrow> string \<Rightarrow> World \<Rightarrow> error + ref option" where
  "sf_getCartItems now contextId' w =
     (if \<not> sf_isContextValid now contextId' w then Inl (Error ''SF_CONTEXT_EXPIRED'')
      else Inr (cartItems w contextId'))"

definition sf_addItem ::
  "nanoid \<Rightarrow> int \<Rightarrow> string \<Rightarrow> AddItemRequest \<Rightarrow> World \<Rightarrow> (error + CartItem) \<times> World" where
  "sf_addItem gen now contextId' itemRequest w =
     (if \<not> sf_isContextValid now contextId' w then (Inl (Error ''SF_CONTEXT_EXPIRED''), w)
      else
        let itemId = ''item_'' @ gen 8 (draws w);
            newItem = \<lparr>id_ci = itemId,
                       productId = productId_req itemRequest,
                       productName = productName_req itemRequest,
                       productType = productType_req itemRequest,
                       quantity = quantity_req itemRequest,
                       unitPrice = unitPrice_req itemRequest,
                       totalPrice = totalPrice_req itemRequest\<rparr>;
            w1 = w\<lparr>draws := draws w + 1\<rparr>
        in (case cartItems w1 contextId' of
              Some a \<Rightarrow> (Inr newItem, w1\<lparr>arrays := (arrays w1)(a := arrays w1 a @ [newItem])\<rparr>)
            | None \<Rightarrow>
                (let a = nextArr w1
                 in (Inr newItem,
                     w1\<lparr>arrays := (arrays w1)(a := [newItem]), nextArr := a + 1,
                        cartItems := (cartItems w1)(contextId' \<mapsto> a)\<rparr>))))"

definition sf_updateItem ::
  "int \<Rightarrow> string \<Rightarrow> string \<Rightarrow> number \<Rightarrow> World \<Rightarrow> (error + CartItem) \<times> World" where
  "sf_updateItem now contextId' itemId quantity' w =
     (if \<not> sf_isContextValid now contextId' w then (Inl (Error ''SF_CONTEXT_EXPIRED''), w)
      else
        let its = deref w (cartItems w contextId')
        in (case findIndex (\<lambda>item. id_ci item = itemId) its of
              None \<Rightarrow> (Inl (Error ''ITEM_NOT_FOUND''), w)
            | Some itemIndex \<Rightarrow>
                (let item = its ! itemIndex;
                     updatedItem = item\<lparr>quantity := quantity',
                                        totalPrice := unitPrice item * quantity'\<rparr>
                 in (case cartItems w contextId' of
                       Some a \<Rightarrow>
                         (Inr updatedItem,
                          w\<lparr>arrays := (arrays w)(a := its[itemIndex := updatedItem])\<rparr>)
                     | None \<Rightarrow> (Inr updatedItem, w)))))"

definition sf_removeItem ::
  "int \<Rightarrow> string \<Rightarrow> string \<Rightarrow> World \<Rightarrow> (error + unit) \<times> World" where
  "sf_removeItem now contextId' itemId w =
     (if \<not> sf_isContextValid now contextId' w then (Inl (Error ''SF_CONTEXT_EXPIRED''), w)
      else
        let its = deref w (cartItems w contextId')
        in (case findIndex (\<lambda>item. id_ci item = itemId) its of
              None \<Rightarrow> (Inl (Error ''ITEM_NOT_FOUND''), w)
            | Some itemIndex \<Rightarrow>
                (case cartItems w contextId' of
                   Some a \<Rightarrow>
                     (Inr (),
                      w\<lparr>arrays := (arrays w)(a := take itemIndex its @ drop (Suc itemIndex) its)\<rparr>)
                 | None \<Rightarrow> (Inr (), w))))"

text \<open>
  \<open>expireContext\<close> writes into the context object itself, so every holder of the object
  sees the new expiry.
\<close>

definition sf_expireContext :: "int \<Rightarrow> string \<Rightarrow> World \<Rightarrow> World" where
  "sf_expireContext now contextId' w =
     (case contexts w contextId' of
        None \<Rightarrow> w
      | Some c \<Rightarrow> w\<lparr>ctxObjs := (ctxObjs w)(c := (ctxObjs w c)\<lparr>expiresAt := now - 1000\<rparr>)\<rparr>)"

subsection \<open>CartService (the orchestrator)\<close>

definition products :: "string \<rightharpoonup> Product" where
  "products = map_of
     [(''phone_iphone15'', \<lparr>id_pr = ''phone_iphone15'', name_pr = ''iPhone 15 Pro'',
         type_pr = PHONE, price = 139999 / 100, requiresPhone = None\<rparr>),
      (''phone_samsung_s24'', \<lparr>id_pr = ''phone_samsung_s24'', name_pr = ''Samsung Galaxy S24'',
         type_pr = PHONE, price = 119999 / 100, requiresPhone = None\<rparr>),
      (''plan_unlimited'', \<lparr>id_pr = ''plan_unlimited'', name_pr = ''Unlimited Plan'',
         type_pr = PLAN, price = 85, requiresPhone = Some True\<rparr>),
      (''plan_5gb'', \<lparr>id_pr = ''plan_5gb'', name_pr = ''5GB Plan'',
         type_pr = PLAN, price = 55, requiresPhone = Some True\<rparr>),
      (''addon_insurance'', \<lparr>id_pr = ''addon_insurance'', name_pr = ''Device Insurance'',
         type_pr = ADDON, price = 12, requiresPhone = None\<rparr>),
      (''addon_earbuds'', \<lparr>id_pr = ''addon_earbuds'', name_pr = ''Wireless Earbuds'',
         type_pr = ADDON, price = 19999 / 100, requiresPhone = None\<rparr>)]"

definition buildCart :: "CartConfig \<Rightarrow> int \<Rightarrow> string \<Rightarrow> CartItem list \<Rightarrow> Cart" where
  "buildCart cfg now cartId' its =
     (let subtotal' = calculateSubtotal its;
          tax' = calculateTax cfg subtotal';
          total' = calculateTotal subtotal' tax'
      in \<lparr>id_cart = cartId', items = its, subtotal = subtotal', tax = tax',
          total_cart = total', createdAt_cart = now, updatedAt_cart = now\<rparr>)"

definition initializeCart :: "CartConfig \<Rightarrow> nanoid \<Rightarrow> int \<Rightarrow> World \<Rightarrow> Cart \<times> World" where
  "initializeCart cfg gen now w =
     (let cartId' = ''cart_'' @ gen 10 (draws w);
          (context, w1) = sf_createContext gen now cartId' (w\<lparr>draws := draws w + 1\<rparr>);
          a = nextArr w1
      in (buildCart cfg now cartId' [],
          w1\<lparr>contextCache := (contextCache w1)(cartId' \<mapsto> context),
             arrays := (arrays w1)(a := []), nextArr := a + 1,
             shadowState := (shadowState w1)(cartId' \<mapsto> a)\<rparr>))"

definition replayRequest :: "CartItem \<Rightarrow> AddItemRequest" where
  "replayRequest item =
     \<lparr>productId_req = productId item, productName_req = productName item,
      productType_req = productType item, quantity_req = quantity item,
      unitPrice_req = unitPrice item, totalPrice_req = totalPrice item\<rparr>"

text \<open>
  The loop of \<open>ensureValidContext\<close> over the shadow items. It adds to the array of the
  context just created, which no other reference reaches, so the list it walks does not
  change under it.
\<close>

fun replay :: "nanoid \<Rightarrow> int \<Rightarrow> string \<Rightarrow> CartItem list \<Rightarrow> World \<Rightarrow> (error + unit) \<times> World" where
  "replay gen now contextId' [] w = (Inr (), w)"
| "replay gen now contextId' (item # rest) w =
     (case sf_addItem gen now contextId' (replayRequest item) w of
        (Inl e, w1) \<Rightarrow> (Inl e, w1)
      | (Inr _, w1) \<Rightarrow> replay gen now contextId' rest w1)"

definition ensureValidContext ::
  "nanoid \<Rightarrow> int \<Rightarrow> string \<Rightarrow> World \<Rightarrow> (error + string) \<times> World" where
  "ensureValidContext gen now cartId' w =
     (case contextCache w cartId' of
        None \<Rightarrow> (Inl (NotFoundError ''Cart'' cartId'), w)
      | Some c \<Rightarrow>
          (let context = ctxObjs w c
           in if now > expiresAt context then
                (let shadowItems = deref w (shadowState w cartId');
                     (c', w1) = sf_createContext gen now cartId' w;
                     newContextId = contextId (ctxObjs w1 c')
                 in (case replay gen now newContextId shadowItems w1 of
                       (Inl e, w2) \<Rightarrow> (Inl e, w2)
                     | (Inr _, w2) \<Rightarrow>
                         (Inr newContextId,
                          w2\<lparr>contextCache := (contextCache w2)(cartId' \<mapsto> c')\<rparr>)))
              else (Inr (contextId context), w)))"

definition getCart ::
  "CartConfig \<Rightarrow> nanoid \<Rightarrow> int \<Rightarrow> string \<Rightarrow> World \<Rightarrow> (error + Cart) \<times> World" where
  "getCart cfg gen now cartId' w =
     (case ensureValidContext gen now cartId' w of
        (Inl e, w1) \<Rightarrow> (Inl e, w1)
      | (Inr contextId', w1) \<Rightarrow>
          (case sf_getCartItems now contextId' w1 of
             Inl e \<Rightarrow> (Inl e, w1)
           | Inr (Some a) \<Rightarrow>
               (Inr (buildCart cfg now cartId' (arrays w1 a)),
                w1\<lparr>shadowState := (shadowState w1)(cartId' \<mapsto> a)\<rparr>)
           | Inr None \<Rightarrow>
               (let a = nextArr w1
                in (Inr (buildCart cfg now cartId' []),
                    w1\<lparr>arrays := (arrays w1)(a := []), nextArr := a + 1,
                       shadowState := (shadowState w1)(cartId' \<mapsto> a)\<rparr>))))"

definition addItem ::
  "CartConfig \<Rightarrow> nanoid \<Rightarrow> int \<Rightarrow> string \<Rightarrow> string \<Rightarrow> number \<Rightarrow> World
     \<Rightarrow> (error + Cart) \<times> World" where
  "addItem cfg gen now cartId' productId' quantity' w =
     (case products productId' of
        None \<Rightarrow> (Inl (NotFoundError ''Product'' productId'), w)
      | Some product \<Rightarrow>
          (case ensureValidContext gen now cartId' w of
             (Inl e, w1) \<Rightarrow> (Inl e, w1)
           | (Inr contextId', w1) \<Rightarrow>
               (case sf_getCartItems now contextId' w1 of
                  Inl e \<Rightarrow> (Inl e, w1)
                | Inr r \<Rightarrow>
                    (let currentItems = deref w1 r;
                         canAdd = canAddItemType cfg currentItems (type_pr product)
                     in if \<not> allowed canAdd
                        then (Inl (Error (case reason canAdd of None \<Rightarrow> [] | Some m \<Rightarrow> m)), w1)
                        else
                          (let totalPrice' = calculateItemTotal (price product) quantity'
                           in (case sf_addItem gen now contextId'
                                      \<lparr>productId_req = id_pr product,
                                       productName_req = name_pr product,
                                       productType_req = type_pr product,
                                       quantity_req = quantity',
                                       unitPrice_req = price product,
                                       totalPrice_req = totalPrice'\<rparr> w1 of
                                 (Inl e, w2) \<Rightarrow> (Inl e, w2)
                               | (Inr newItem, w2) \<Rightarrow>
                                   (case shadowState w2 cartId' of
                                      Some a \<Rightarrow>
                                        (let w3 = w2\<lparr>arrays :=
                                                       (arrays w2)(a := arrays w2 a @ [newItem])\<rparr>
                                         in (Inr (buildCart cfg now cartId' (arrays w3 a)), w3))
                                    | None \<Rightarrow>
                                        (let a = nextArr w2
                                         in (Inr (buildCart cfg now cartId' [newItem]),
                                             w2\<lparr>arrays := (arrays w2)(a := [newItem]),
                                                nextArr := a + 1,
                                                shadowState :=
                                                  (shadowState w2)(cartId' \<mapsto> a)\<rparr>)))))))))"

definition updateItem ::
  "CartConfig \<Rightarrow> nanoid \<Rightarrow> int \<Rightarrow> string \<Rightarrow> string \<Rightarrow> number \<Rightarrow> World
     \<Rightarrow> (error + Cart) \<times> World" where
  "updateItem cfg gen now cartId' itemId quantity' w =
     (case ensureValidContext gen now cartId' w of
        (Inl e, w1) \<Rightarrow> (Inl e, w1)
      | (Inr contextId', w1) \<Rightarrow>
          (case sf_updateItem now contextId' itemId quantity' w1 of
             (Inl e, w2) \<Rightarrow> (Inl e, w2)
           | (Inr updatedItem, w2) \<Rightarrow>
               (let shadowItems = deref w2 (shadowState w2 cartId')
                in (case findIndex (\<lambda>i. id_ci i = itemId) shadowItems of
                      None \<Rightarrow> (Inr (buildCart cfg now cartId' shadowItems), w2)
                    | Some index \<Rightarrow>
                        (case shadowState w2 cartId' of
                           Some a \<Rightarrow>
                             (let w3 = w2\<lparr>arrays :=
                                            (arrays w2)(a := shadowItems[index := updatedItem])\<rparr>
                              in (Inr (buildCart cfg now cartId' (arrays w3 a)), w3))
                         | None \<Rightarrow> (Inr (buildCart cfg now cartId' shadowItems), w2))))))"

definition removeItem ::
  "CartConfig \<Rightarrow> nanoid \<Rightarrow> int \<Rightarrow> string \<Rightarrow> string \<Rightarrow> World \<Rightarrow> (error + Cart) \<times> World" where
  "removeItem cfg gen now cartId' itemId w =
     (case ensureValidContext gen now cartId' w of
        (Inl e, w1) \<Rightarrow> (Inl e, w1)
      | (Inr contextId', w1) \<Rightarrow>
          (case sf_removeItem now contextId' itemId w1 of
             (Inl e, w2) \<Rightarrow> (Inl e, w2)
           | (Inr _, w2) \<Rightarrow>
               (let shadowItems = deref w2 (shadowState w2 cartId')
                in (case findIndex (\<lambda>i. id_ci i = itemId) shadowItems of
                      None \<Rightarrow> (Inr (buildCart cfg now cartId' shadowItems), w2)
                    | Some index \<Rightarrow>
                        (case shadowState w2 cartId' of
                           Some a \<Rightarrow>
                             (let w3 = w2\<lparr>arrays :=
                                            (arrays w2)(a := take index shadowItems
                                                              @ drop (Suc index) shadowItems)\<rparr>
                              in (Inr (buildCart cfg now cartId' (arrays w3 a)), w3))
                         | None \<Rightarrow> (Inr (buildCart cfg now cartId' shadowItems), w2))))))"

definition validateCart ::
  "CartConfig \<Rightarrow> nanoid \<Rightarrow> int \<Rightarrow> string \<Rightarrow> World \<Rightarrow> (error + ValidationResult) \<times> World" where
  "validateCart cfg gen now cartId' w =
     (case ensureValidContext gen now cartId' w of
        (Inl e, w1) \<Rightarrow> (Inl e, w1)
      | (Inr contextId', w1) \<Rightarrow>
          (case sf_getCartItems now contextId' w1 of
             Inl e \<Rightarrow> (Inl e, w1)
           | Inr r \<Rightarrow> (Inr (validateCartRules cfg (deref w1 r)), w1)))"

section \<open>Vocabulary of the properties and example inputs\<close>

text \<open>What identifies a cart line apart from its identifier.\<close>

definition item_content ::
  "CartItem \<Rightarrow> string \<times> string \<times> ProductType \<times> number \<times> number \<times> number" where
  "item_content item =
     (productId item, productName item, productType item,
      quantity item, unitPrice item, totalPrice item)"

definition shadowItems :: "World \<Rightarrow> string \<Rightarrow> CartItem list" where
  "shadowItems w cartId' = deref w (shadowState w cartId')"

text \<open>
  A cart has a live context at \<open>now\<close> when \<open>ensureValidContext\<close> keeps the cached context
  and the client holds an unexpired context under that identifier; its live items are
  the array the client keeps for it.
\<close>

definition liveContext :: "int \<Rightarrow> string \<Rightarrow> World \<Rightarrow> string option" where
  "liveContext now cartId' w =
     (case contextCache w cartId' of
        None \<Rightarrow> None
      | Some c \<Rightarrow>
          (if now \<le> expiresAt (ctxObjs w c) \<and> sf_isContextValid now (contextId (ctxObjs w c)) w
           then Some (contextId (ctxObjs w c)) else None))"

definition liveItems :: "int \<Rightarrow> string \<Rightarrow> World \<Rightarrow> CartItem list option" where
  "liveItems now cartId' w =
     map_option (\<lambda>contextId'. deref w (cartItems w contextId')) (liveContext now cartId' w)"

text \<open>An identifier source that never repeats: the decimal call number.\<close>

definition gen0 :: nanoid where
  "gen0 sz n = show_nat n"

text \<open>A client with the default TTL of five minutes, and one cart created at time 1000.\<close>

definition world0 :: World where
  "world0 = newWorld 300000"

definition world1 :: World where
  "world1 = snd (initializeCart config gen0 1000 world0)"

definition mkItem :: "string \<Rightarrow> ProductType \<Rightarrow> number \<Rightarrow> number \<Rightarrow> CartItem" where
  "mkItem i t q p =
     \<lparr>id_ci = i, productId = ''p'', productName = ''n'', productType = t,
      quantity = q, unitPrice = p, totalPrice = p * q\<rparr>"

text \<open>Four lines that break four rules at once when the cart may hold three items.\<close>

definition config3 :: CartConfig where
  "config3 = config\<lparr>maxItemsPerCart := 3\<rparr>"

definition items4 :: "CartItem list" where
  "items4 = [mkItem ''a'' PHONE 0 10, mkItem ''b'' PHONE 1 10, mkItem ''c'' PLAN 1 85,
             mkItem ''d'' PLAN (1 / 2) 55]"

text \<open>A cart limited to two lines and filled: a phone and an insurance add-on.\<close>

definition config2 :: CartConfig where
  "config2 = config\<lparr>maxItemsPerCart := 2\<rparr>"

definition world_full2 :: World where
  "world_full2 =
     snd (addItem config2 gen0 3000 ''cart_0'' ''addon_insurance'' 1
       (snd (addItem config2 gen0 2000 ''cart_0'' ''phone_iphone15'' 1 world1)))"

text \<open>
  The cart \<open>cart_0\<close> after \<open>phone_iphone15\<close> and then 49 lines of \<open>addon_insurance\<close>
  were added to it, and the fifty lines it then holds.
\<close>

definition world_phone :: World where
  "world_phone = snd (addItem config gen0 2000 ''cart_0'' ''phone_iphone15'' 1 world1)"

definition addInsurance :: "World \<Rightarrow> World" where
  "addInsurance w = snd (addItem config gen0 2000 ''cart_0'' ''addon_insurance'' 1 w)"

definition world50 :: World where
  "world50 = (addInsurance ^^ 49) world_phone"

definition phone_line :: CartItem where
  "phone_line =
     \<lparr>id_ci = ''item_2'', productId = ''phone_iphone15'', productName = ''iPhone 15 Pro'',
      productType = PHONE, quantity = 1, unitPrice = 139999 / 100, totalPrice = 139999 / 100\<rparr>"

definition insurance_line :: "nat \<Rightarrow> CartItem" where
  "insurance_line n =
     \<lparr>id_ci = ''item_'' @ show_nat n, productId = ''addon_insurance'',
      productName = ''Device Insurance'', productType = ADDON, quantity = 1,
      unitPrice = 12, totalPrice = 12\<rparr>"

definition items50 :: "CartItem list" where
  "items50 = phone_line # map insurance_line [3..<52]"

text \<open>The cart \<open>cart_0\<close> holding one plan and no phone.\<close>

definition world_plan :: World where
  "world_plan = snd (addItem config gen0 2000 ''cart_0'' ''plan_unlimited'' 1 world1)"

text \<open>
  The cart \<open>cart_0\<close> holding one line of \<open>addon_earbuds\<close> (199.99), whose identifier
  is \<open>item_2\<close>.
\<close>

definition world_earbuds :: World where
  "world_earbuds = snd (addItem config gen0 2000 ''cart_0'' ''addon_earbuds'' 1 world1)"

definition earbuds_line :: CartItem where
  "earbuds_line =
     \<lparr>id_ci = ''item_2'', productId = ''addon_earbuds'', productName = ''Wireless Earbuds'',
      productType = ADDON, quantity = 1, unitPrice = 19999 / 100, totalPrice = 19999 / 100\<rparr>"

text \<open>
  The lines that the replay loop of \<open>ensureValidContext\<close> puts into the new context when
  the first of them gets the \<open>d\<close>-th identifier drawn: the shadow lines with fresh
  identifiers.
\<close>

fun replayed :: "nanoid \<Rightarrow> nat \<Rightarrow> CartItem list \<Rightarrow> CartItem list" where
  "replayed gen d [] = []"
| "replayed gen d (item # rest) =
     \<lparr>id_ci = ''item_'' @ gen 8 d, productId = productId item,
      productName = productName item, productType = productType item,
      quantity = quantity item, unitPrice = unitPrice item, totalPrice = totalPrice item\<rparr>
     # replayed gen (Suc d) rest"

text \<open>Every reference held by one of the four maps has been allocated.\<close>

definition refs_allocated :: "World \<Rightarrow> bool" where
  "refs_allocated w \<longleftrightarrow>
     (\<forall>k a. shadowState w k = Some a \<longrightarrow> a < nextArr w)
     \<and> (\<forall>k a. cartItems w k = Some a \<longrightarrow> a < nextArr w)
     \<and> (\<forall>k c. contexts w k = Some c \<longrightarrow> c < nextCtx w)
     \<and> (\<forall>k c. contextCache w k = Some c \<longrightarrow> c < nextCtx w)"

text \<open>
  The cart with the phone (\<open>world_phone\<close>, line \<open>item_2\<close>) after \<open>expireContext\<close> was
  called on its context at time 3000.
\<close>

definition world_phone_expired :: World where
  "world_phone_expired = sf_expireContext 3000 ''sf_ctx_1'' world_phone"

text \<open>
  The cart \<open>cart_0\<close> holding a phone, to which \<open>addon_insurance\<close> is added at time
  400000, after its context (valid until 301000) has expired.
\<close>

definition world_readded :: World where
  "world_readded = snd (addItem config gen0 400000 ''cart_0'' ''addon_insurance'' 1 world_phone)"

text \<open>
  What the specification asks of a validation result \<open>v\<close> for the item list \<open>its\<close>:
  the errors are a subsequence of the five messages in the order max-item-count,
  plan-without-phone, multiple-phones, multiple-plans, invalid-quantities; each message is
  there exactly when its rule is violated; and \<open>valid\<close> holds exactly when there is no
  error.
\<close>

definition rule_report :: "CartConfig \<Rightarrow> CartItem list \<Rightarrow> ValidationResult \<Rightarrow> bool" where
  "rule_report cfg its v \<longleftrightarrow>
     subseq (errors v)
       [msg_max_exceeded cfg, msg_plan_without_phone, msg_one_phone, msg_one_plan,
        msg_invalid_quantities]
     \<and> (msg_max_exceeded cfg \<in> set (errors v) \<longleftrightarrow> int (length its) > maxItemsPerCart cfg)
     \<and> (msg_plan_without_phone \<in> set (errors v)
          \<longleftrightarrow> (\<exists>i \<in> set its. productType i = PLAN)
              \<and> \<not> (\<exists>i \<in> set its. productType i = PHONE))
     \<and> (msg_one_phone \<in> set (errors v)
          \<longleftrightarrow> length (filter (\<lambda>i. productType i = PHONE) its) > 1)
     \<and> (msg_one_plan \<in> set (errors v)
          \<longleftrightarrow> length (filter (\<lambda>i. productType i = PLAN) its) > 1)
     \<and> (msg_invalid_quantities \<in> set (errors v)
          \<longleftrightarrow> (\<exists>i \<in> set its. quantity i \<le> 0 \<or> quantity i \<notin> \<int>))
     \<and> (valid v \<longleftrightarrow> errors v = [])"

text \<open>
  The cart that holds one plan and no phone, after the quantity of the plan (line
  \<open>item_2\<close>) was set to \<open>0.5\<close>.
\<close>

definition world_plan_half :: World where
  "world_plan_half = snd (updateItem config gen0 2500 ''cart_0'' ''item_2'' (1 / 2) world_plan)"

definition plan_half_line :: CartItem where
  "plan_half_line =
     \<lparr>id_ci = ''item_2'', productId = ''plan_unlimited'', productName = ''Unlimited Plan'',
      productType = PLAN, quantity = 1 / 2, unitPrice = 85, totalPrice = 85 / 2\<rparr>"

section \<open>Properties\<close>

subsection \<open>Helper facts\<close>

lemmas msgs =
  msg_max_exceeded_def msg_plan_without_phone_def msg_one_phone_def msg_one_plan_def
  msg_invalid_quantities_def

lemma isInteger_iff: "isInteger x \<longleftrightarrow> x \<in> \<int>"
  unfolding isInteger_def by (metis Ints_of_int Ints_cases floor_of_int)

lemma errors_eq:
  "errors (validateCartRules cfg its) =
     map snd (filter fst
       [(int (length its) > maxItemsPerCart cfg, msg_max_exceeded cfg),
        ((\<exists>i \<in> set its. productType i = PLAN) \<and> \<not> (\<exists>i \<in> set its. productType i = PHONE),
           msg_plan_without_phone),
        (length (filter (\<lambda>i. productType i = PHONE) its) > 1, msg_one_phone),
        (length (filter (\<lambda>i. productType i = PLAN) its) > 1, msg_one_plan),
        ((\<exists>i \<in> set its. quantity i \<le> 0 \<or> quantity i \<notin> \<int>), msg_invalid_quantities)])"
  by (simp add: validateCartRules_def Let_def list_ex_iff filter_empty_conv isInteger_iff)

lemma msgs_distinct:
  "distinct [msg_max_exceeded cfg, msg_plan_without_phone, msg_one_phone, msg_one_plan,
     msg_invalid_quantities]"
  by (simp add: msgs)

lemma mem_filter_pairs:
  "distinct (map snd ps) \<Longrightarrow> (b, m) \<in> set ps \<Longrightarrow>
     m \<in> set (map snd (filter fst ps)) \<longleftrightarrow> b"
  by (induction ps) force+

lemmas ops =
  addItem_def getCart_def validateCart_def updateItem_def removeItem_def
  ensureValidContext_def sf_getCartItems_def sf_isContextValid_def sf_addItem_def
  sf_updateItem_def sf_removeItem_def sf_createContext_def initializeCart_def buildCart_def
  deref_def newWorld_def products_def canAddItemType_def replayRequest_def Let_def

lemma ensureValidContext_live:
  "liveContext now cart w = Some cid \<Longrightarrow> ensureValidContext gen now cart w = (Inr cid, w)"
  by (auto simp: liveContext_def ensureValidContext_def Let_def split: option.splits if_splits)

lemma sf_getCartItems_live:
  "liveContext now cart w = Some cid \<Longrightarrow> sf_getCartItems now cid w = Inr (cartItems w cid)"
  by (auto simp: liveContext_def sf_getCartItems_def split: option.splits if_splits)

lemma sf_isContextValid_live:
  "liveContext now cart w = Some cid \<Longrightarrow> sf_isContextValid now cid w"
  by (auto simp: liveContext_def split: option.splits if_splits)

lemma liveItemsD:
  "liveItems now cart w = Some its \<Longrightarrow>
     \<exists>cid. liveContext now cart w = Some cid \<and> its = deref w (cartItems w cid)"
  by (auto simp: liveItems_def)

lemma filter_ge1: "(Suc 0 \<le> length (filter P xs)) \<longleftrightarrow> (\<exists>x \<in> set xs. P x)"
  by (induction xs) auto

lemma addItem_live:
  assumes "products pid = Some p" and "liveContext now cart w = Some cid"
  shows "addItem cfg gen now cart pid q w =
    (let canAdd = canAddItemType cfg (deref w (cartItems w cid)) (type_pr p)
     in if \<not> allowed canAdd
        then (Inl (Error (case reason canAdd of None \<Rightarrow> [] | Some m \<Rightarrow> m)), w)
        else
          (case sf_addItem gen now cid
                  \<lparr>productId_req = id_pr p, productName_req = name_pr p,
                   productType_req = type_pr p, quantity_req = q,
                   unitPrice_req = price p,
                   totalPrice_req = calculateItemTotal (price p) q\<rparr> w of
             (Inl e, w2) \<Rightarrow> (Inl e, w2)
           | (Inr newItem, w2) \<Rightarrow>
               (case shadowState w2 cart of
                  Some a \<Rightarrow>
                    (let w3 = w2\<lparr>arrays := (arrays w2)(a := arrays w2 a @ [newItem])\<rparr>
                     in (Inr (buildCart cfg now cart (arrays w3 a)), w3))
                | None \<Rightarrow>
                    (let a = nextArr w2
                     in (Inr (buildCart cfg now cart [newItem]),
                         w2\<lparr>arrays := (arrays w2)(a := [newItem]), nextArr := a + 1,
                            shadowState := (shadowState w2)(cart \<mapsto> a)\<rparr>)))))"
  using assms(1)
  by (simp add: addItem_def ensureValidContext_live [OF assms(2)]
      sf_getCartItems_live [OF assms(2)] Let_def)

lemma floor_numeral_div: "\<lfloor>numeral a / numeral b :: rat\<rfloor> = numeral a div numeral b"
  using floor_divide_of_int_eq [where ?'a = rat, of "numeral a" "numeral b"] by simp

lemma floor_one_div: "\<lfloor>1 / numeral b :: rat\<rfloor> = 1 div numeral b"
  using floor_divide_of_int_eq [where ?'a = rat, of 1 "numeral b"] by simp

lemmas scen = world1_def world0_def gen0_def liveItems_def liveContext_def config_def
  calculateItemTotal_def toFixed2_def show_int_def show_nat.simps floor_numeral_div
  floor_one_div

lemma validateCart_live:
  assumes "liveItems now cart w = Some its"
  shows "validateCart cfg gen now cart w = (Inr (validateCartRules cfg its), w)"
proof -
  from assms obtain cid where l: "liveContext now cart w = Some cid"
    and i: "its = deref w (cartItems w cid)"
    using liveItemsD by blast
  show ?thesis
    by (simp add: validateCart_def ensureValidContext_live [OF l] sf_getCartItems_live [OF l] i)
qed

lemma filter_none: "(\<forall>x \<in> set xs. \<not> P x) \<Longrightarrow> filter P xs = []"
  by (induction xs) auto

lemma findIndex_SomeD:
  "findIndex p xs = Some k \<Longrightarrow> k < length xs \<and> p (xs ! k)"
  by (induction xs arbitrary: k) (auto split: if_splits option.splits)

lemma findIndex_update:
  "findIndex p xs = Some k \<Longrightarrow> p y \<Longrightarrow> findIndex p (xs[k := y]) = Some k"
  by (induction xs arbitrary: k) (auto split: if_splits option.splits)

lemma liveContext_arrays_upd [simp]:
  "liveContext now cart (w\<lparr>arrays := f\<rparr>) = liveContext now cart w"
  by (auto simp: liveContext_def sf_isContextValid_def split: option.splits)

lemma live_earbuds: "liveItems 3000 ''cart_0'' world_earbuds = Some [earbuds_line]"
  by (simp add: world_earbuds_def earbuds_line_def ops scen)

lemma shadow_earbuds: "shadowItems world_earbuds ''cart_0'' = [earbuds_line]"
  by (simp add: world_earbuds_def earbuds_line_def shadowItems_def ops scen)

lemma foldl_totalPrice: "foldl (\<lambda>sum item. sum + totalPrice item) a its = a + sum_list (map totalPrice its)"
  by (induction its arbitrary: a) auto

text \<open>
  What \<open>buildCart\<close> computes: three roundings, one after the other, starting from the
  stored line totals.
\<close>

lemma buildCart_pricing:
  "subtotal (buildCart cfg now cart its) = toFixed2 (sum_list (map totalPrice its))
   \<and> tax (buildCart cfg now cart its) = toFixed2 (subtotal (buildCart cfg now cart its) * taxRate cfg)
   \<and> total_cart (buildCart cfg now cart its)
       = toFixed2 (subtotal (buildCart cfg now cart its) + tax (buildCart cfg now cart its))
   \<and> items (buildCart cfg now cart its) = its"
  by (simp add: buildCart_def Let_def calculateSubtotal_def calculateTax_def calculateTotal_def
      foldl_totalPrice)

text \<open>
  The scenario of the specification: \<open>phone_iphone15\<close> and then \<open>addon_insurance\<close>,
  one of each, on a fresh cart.
\<close>

lemma pricing_scenario:
  "\<exists>c w'. addItem config gen0 3000 ''cart_0'' ''addon_insurance'' 1
              (snd (addItem config gen0 2000 ''cart_0'' ''phone_iphone15'' 1 world1)) = (Inr c, w')
     \<and> map totalPrice (items c) = [139999 / 100, 12]
     \<and> subtotal c = 141199 / 100 \<and> tax c = 18356 / 100 \<and> total_cart c = 159555 / 100"
  by (simp add: ops scen calculateSubtotal_def calculateTax_def calculateTotal_def)

lemma replayed_content: "map item_content (replayed gen d its) = map item_content its"
  by (induction its arbitrary: d) (auto simp: item_content_def)

lemma replayed_ids:
  "map id_ci (replayed gen d its) = map (\<lambda>i. ''item_'' @ gen 8 (d + i)) [0..<length its]"
proof (induction its arbitrary: d)
  case Nil
  then show ?case by simp
next
  case (Cons x xs)
  have "[0..<length (x # xs)] = 0 # map Suc [0..<length xs]"
    by (simp add: upt_conv_Cons map_Suc_upt del: upt_Suc)
  then show ?case
    using Cons by (simp add: comp_def)
qed

lemma replay_valid:
  assumes "contexts w cid = Some c" and "now < expiresAt (ctxObjs w c)"
    and "cartItems w cid = Some a"
  shows "replay gen now cid its w =
           (Inr (), w\<lparr>draws := draws w + length its,
                      arrays := (arrays w)(a := arrays w a @ replayed gen (draws w) its)\<rparr>)"
  using assms
proof (induction its arbitrary: w)
  case Nil
  then show ?case by simp
next
  case (Cons x xs)
  let ?n = "\<lparr>id_ci = ''item_'' @ gen 8 (draws w), productId = productId x,
      productName = productName x, productType = productType x,
      quantity = quantity x, unitPrice = unitPrice x, totalPrice = totalPrice x\<rparr>"
  let ?w1 = "w\<lparr>draws := draws w + 1, arrays := (arrays w)(a := arrays w a @ [?n])\<rparr>"
  have s: "sf_addItem gen now cid (replayRequest x) w = (Inr ?n, ?w1)"
    using Cons.prems by (simp add: sf_addItem_def sf_isContextValid_def replayRequest_def Let_def)
  have "replay gen now cid xs ?w1 =
           (Inr (), ?w1\<lparr>draws := draws ?w1 + length xs,
                      arrays := (arrays ?w1)(a := arrays ?w1 a @ replayed gen (draws ?w1) xs)\<rparr>)"
    by (rule Cons.IH) (use Cons.prems in simp_all)
  then show ?case
    by (simp add: s) (simp add: fun_upd_def)
qed

lemma replay_frame:
  assumes "cartItems w cid = Some a"
  shows "\<exists>d xs. snd (replay gen now cid its w) = w\<lparr>draws := d, arrays := (arrays w)(a := xs)\<rparr>"
  using assms
proof (induction its arbitrary: w)
  case Nil
  have "w = w\<lparr>draws := draws w, arrays := (arrays w)(a := arrays w a)\<rparr>" by simp
  then show ?case by (metis replay.simps(1) snd_conv)
next
  case (Cons x xs)
  show ?case
  proof (cases "sf_isContextValid now cid w")
    case False
    have "w = w\<lparr>draws := draws w, arrays := (arrays w)(a := arrays w a)\<rparr>" by simp
    moreover have "snd (replay gen now cid (x # xs) w) = w"
      using False by (simp add: sf_addItem_def)
    ultimately show ?thesis by metis
  next
    case True
    let ?n = "\<lparr>id_ci = ''item_'' @ gen 8 (draws w), productId = productId x,
      productName = productName x, productType = productType x,
      quantity = quantity x, unitPrice = unitPrice x, totalPrice = totalPrice x\<rparr>"
    let ?w1 = "w\<lparr>draws := draws w + 1, arrays := (arrays w)(a := arrays w a @ [?n])\<rparr>"
    have s: "sf_addItem gen now cid (replayRequest x) w = (Inr ?n, ?w1)"
      using Cons.prems True by (simp add: sf_addItem_def replayRequest_def Let_def)
    have "cartItems ?w1 cid = Some a" using Cons.prems by simp
    from Cons.IH [OF this] obtain d ys where
      "snd (replay gen now cid xs ?w1) = ?w1\<lparr>draws := d, arrays := (arrays ?w1)(a := ys)\<rparr>"
      by blast
    then have "snd (replay gen now cid (x # xs) w) = w\<lparr>draws := d, arrays := (arrays w)(a := ys)\<rparr>"
      by (simp add: s)
    then show ?thesis by blast
  qed
qed

lemma ensureValidContext_recover:
  assumes "contextCache w cart = Some c" and "expiresAt (ctxObjs w c) < now"
  shows "ensureValidContext gen now cart w =
    (case replay gen now (''sf_ctx_'' @ gen 12 (draws w)) (shadowItems w cart)
            (w\<lparr>draws := draws w + 1,
               ctxObjs := (ctxObjs w)(nextCtx w :=
                  \<lparr>contextId = ''sf_ctx_'' @ gen 12 (draws w), cartId = cart,
                   expiresAt = now + contextTTL w, createdAt = now\<rparr>),
               nextCtx := nextCtx w + 1,
               arrays := (arrays w)(nextArr w := []), nextArr := nextArr w + 1,
               contexts := (contexts w)(''sf_ctx_'' @ gen 12 (draws w) \<mapsto> nextCtx w),
               cartItems := (cartItems w)(''sf_ctx_'' @ gen 12 (draws w) \<mapsto> nextArr w)\<rparr>) of
       (Inl e, w2) \<Rightarrow> (Inl e, w2)
     | (Inr _, w2) \<Rightarrow>
         (Inr (''sf_ctx_'' @ gen 12 (draws w)),
          w2\<lparr>contextCache := (contextCache w2)(cart \<mapsto> nextCtx w)\<rparr>))"
  using assms
  by (simp add: ensureValidContext_def sf_createContext_def Let_def shadowItems_def
      split: prod.splits sum.splits)

text \<open>The recovery branch of \<open>ensureValidContext\<close>, when the new context outlives the call.\<close>

lemma ensureValidContext_expired:
  assumes "contextCache w cart = Some c" and "expiresAt (ctxObjs w c) < now"
    and "0 < contextTTL w"
  shows "ensureValidContext gen now cart w =
    (Inr (''sf_ctx_'' @ gen 12 (draws w)),
     w\<lparr>draws := draws w + 1 + length (shadowItems w cart),
       ctxObjs := (ctxObjs w)(nextCtx w :=
          \<lparr>contextId = ''sf_ctx_'' @ gen 12 (draws w), cartId = cart,
           expiresAt = now + contextTTL w, createdAt = now\<rparr>),
       nextCtx := nextCtx w + 1,
       arrays := (arrays w)(nextArr w := replayed gen (draws w + 1) (shadowItems w cart)),
       nextArr := nextArr w + 1,
       contexts := (contexts w)(''sf_ctx_'' @ gen 12 (draws w) \<mapsto> nextCtx w),
       cartItems := (cartItems w)(''sf_ctx_'' @ gen 12 (draws w) \<mapsto> nextArr w),
       contextCache := (contextCache w)(cart \<mapsto> nextCtx w)\<rparr>)"
proof -
  let ?cid = "''sf_ctx_'' @ gen 12 (draws w)"
  let ?ctx = "\<lparr>contextId = ?cid, cartId = cart,
           expiresAt = now + contextTTL w, createdAt = now\<rparr>"
  let ?w1 = "w\<lparr>draws := draws w + 1,
               ctxObjs := (ctxObjs w)(nextCtx w := ?ctx), nextCtx := nextCtx w + 1,
               arrays := (arrays w)(nextArr w := []), nextArr := nextArr w + 1,
               contexts := (contexts w)(?cid \<mapsto> nextCtx w),
               cartItems := (cartItems w)(?cid \<mapsto> nextArr w)\<rparr>"
  have r: "replay gen now ?cid (shadowItems w cart) ?w1 =
           (Inr (), ?w1\<lparr>draws := draws ?w1 + length (shadowItems w cart),
                      arrays := (arrays ?w1)(nextArr w := arrays ?w1 (nextArr w)
                         @ replayed gen (draws ?w1) (shadowItems w cart))\<rparr>)"
    by (rule replay_valid [where c = "nextCtx w"]) (use assms(3) in simp_all)
  note e = ensureValidContext_recover [OF assms(1,2), of gen]
  show ?thesis
    unfolding e r by simp
qed

lemma ensureValidContext_frame:
  "shadowState (snd (ensureValidContext gen now cart w)) = shadowState w
   \<and> (\<forall>r. r \<noteq> nextArr w \<longrightarrow> arrays (snd (ensureValidContext gen now cart w)) r = arrays w r)
   \<and> (\<forall>k. k \<noteq> cart \<longrightarrow>
          contextCache (snd (ensureValidContext gen now cart w)) k = contextCache w k)
   \<and> (contextCache (snd (ensureValidContext gen now cart w)) cart = None
        \<longleftrightarrow> contextCache w cart = None)"
proof (cases "contextCache w cart")
  case None
  then show ?thesis by (simp add: ensureValidContext_def)
next
  case (Some c)
  show ?thesis
  proof (cases "now > expiresAt (ctxObjs w c)")
    case False
    then show ?thesis using Some by (simp add: ensureValidContext_def Let_def)
  next
    case True
    let ?cid = "''sf_ctx_'' @ gen 12 (draws w)"
    let ?ctx = "\<lparr>contextId = ?cid, cartId = cart,
           expiresAt = now + contextTTL w, createdAt = now\<rparr>"
    let ?w1 = "w\<lparr>draws := draws w + 1,
               ctxObjs := (ctxObjs w)(nextCtx w := ?ctx), nextCtx := nextCtx w + 1,
               arrays := (arrays w)(nextArr w := []), nextArr := nextArr w + 1,
               contexts := (contexts w)(?cid \<mapsto> nextCtx w),
               cartItems := (cartItems w)(?cid \<mapsto> nextArr w)\<rparr>"
    let ?its = "shadowItems w cart"
    have "cartItems ?w1 ?cid = Some (nextArr w)" by simp
    from replay_frame [OF this, of gen now ?its] obtain d xs where
      r: "snd (replay gen now ?cid ?its ?w1) = ?w1\<lparr>draws := d, arrays := (arrays ?w1)(nextArr w := xs)\<rparr>"
      by blast
    obtain res w2 where p: "replay gen now ?cid ?its ?w1 = (res, w2)"
      by (cases "replay gen now ?cid ?its ?w1")
    with r have w2: "w2 = ?w1\<lparr>draws := d, arrays := (arrays ?w1)(nextArr w := xs)\<rparr>"
      by simp
    from True have lt: "expiresAt (ctxObjs w c) < now" by simp
    have e: "snd (ensureValidContext gen now cart w) =
       (case res of Inl e \<Rightarrow> w2
        | Inr _ \<Rightarrow> w2\<lparr>contextCache := (contextCache w2)(cart \<mapsto> nextCtx w)\<rparr>)"
      unfolding ensureValidContext_recover [OF Some lt, of gen] p
      by (simp split: sum.splits)
    show ?thesis
      unfolding e w2 using Some by (cases res) simp_all
  qed
qed

lemma validateCart_snd:
  "snd (validateCart cfg gen now cart w) = snd (ensureValidContext gen now cart w)"
  by (simp add: validateCart_def split: prod.splits sum.splits)

lemma refs_allocated_world1: "refs_allocated world1"
  by (simp add: refs_allocated_def ops scen)

text \<open>What \<open>updateItem\<close> does on a live context that knows the identifier.\<close>

lemma updateItem_live:
  assumes live: "liveItems now cart w = Some its"
    and idx: "findIndex (\<lambda>i. id_ci i = itemId) its = Some k"
  shows "\<exists>c w'. updateItem cfg gen now cart itemId q w = (Inr c, w')
           \<and> k < length its \<and> id_ci (its ! k) = itemId
           \<and> liveItems now cart w'
               = Some (its[k := (its ! k)\<lparr>quantity := q, totalPrice := unitPrice (its ! k) * q\<rparr>])
           \<and> shadowItems w' cart
               = (case findIndex (\<lambda>i. id_ci i = itemId) (shadowItems w cart) of
                    None \<Rightarrow> shadowItems w cart
                  | Some j \<Rightarrow> (shadowItems w cart)
                      [j := (its ! k)\<lparr>quantity := q, totalPrice := unitPrice (its ! k) * q\<rparr>])
           \<and> items c = shadowItems w' cart"
proof -
  let ?u = "(its ! k)\<lparr>quantity := q, totalPrice := unitPrice (its ! k) * q\<rparr>"
  from live obtain cid where l: "liveContext now cart w = Some cid"
    and i: "its = deref w (cartItems w cid)"
    using liveItemsD by blast
  from idx have k: "k < length its" "id_ci (its ! k) = itemId"
    using findIndex_SomeD [OF idx] by auto
  from k i obtain a where a: "cartItems w cid = Some a" and ia: "its = arrays w a"
    by (cases "cartItems w cid") (auto simp: deref_def)
  let ?w2 = "w\<lparr>arrays := (arrays w)(a := its[k := ?u])\<rparr>"
  have u: "sf_updateItem now cid itemId q w = (Inr ?u, ?w2)"
    using idx a ia sf_isContextValid_live [OF l]
    by (simp add: sf_updateItem_def deref_def Let_def)
  have idu: "id_ci ?u = itemId" using k by simp
  show ?thesis
  proof (cases "shadowState w cart")
    case None
    then show ?thesis
      using k l a
      by (simp add: updateItem_def ensureValidContext_live [OF l] u Let_def deref_def
          shadowItems_def liveItems_def buildCart_def)
  next
    case (Some s)
    show ?thesis
    proof (cases "s = a")
      case True
      have "findIndex (\<lambda>i. id_ci i = itemId) (its[k := ?u]) = Some k"
        by (rule findIndex_update [OF idx idu])
      then show ?thesis
        using k l a Some True ia idx
        by (simp add: updateItem_def ensureValidContext_live [OF l] u Let_def deref_def
            shadowItems_def liveItems_def buildCart_def)
    next
      case False
      then show ?thesis
        using k l a Some
        by (simp add: updateItem_def ensureValidContext_live [OF l] u Let_def deref_def
            shadowItems_def liveItems_def buildCart_def split: option.splits)
    qed
  qed
qed

lemma invalid_quantities_reported:
  "msg_invalid_quantities \<in> set (errors (validateCartRules cfg its))
     \<longleftrightarrow> (\<exists>i \<in> set its. quantity i \<le> 0 \<or> quantity i \<notin> \<int>)"
  unfolding errors_eq
  by (rule mem_filter_pairs) (simp_all add: msgs_distinct [simplified])

subsection \<open>The rules of validateCartRules\<close>

text \<open>
  The errors of \<open>validateCartRules\<close> are a subsequence of the five messages in their
  fixed order, and each message is present exactly when its rule is violated.
\<close>

lemma validateCartRules_order:
  "subseq (errors (validateCartRules cfg its))
      [msg_max_exceeded cfg, msg_plan_without_phone, msg_one_phone, msg_one_plan,
       msg_invalid_quantities]
   \<and> (msg_max_exceeded cfg \<in> set (errors (validateCartRules cfg its))
        \<longleftrightarrow> int (length its) > maxItemsPerCart cfg)
   \<and> (msg_plan_without_phone \<in> set (errors (validateCartRules cfg its))
        \<longleftrightarrow> (\<exists>i \<in> set its. productType i = PLAN)
            \<and> \<not> (\<exists>i \<in> set its. productType i = PHONE))
   \<and> (msg_one_phone \<in> set (errors (validateCartRules cfg its))
        \<longleftrightarrow> length (filter (\<lambda>i. productType i = PHONE) its) > 1)
   \<and> (msg_one_plan \<in> set (errors (validateCartRules cfg its))
        \<longleftrightarrow> length (filter (\<lambda>i. productType i = PLAN) its) > 1)
   \<and> (msg_invalid_quantities \<in> set (errors (validateCartRules cfg its))
        \<longleftrightarrow> (\<exists>i \<in> set its. quantity i \<le> 0 \<or> quantity i \<notin> \<int>))
   \<and> (valid (validateCartRules cfg its) \<longleftrightarrow> errors (validateCartRules cfg its) = [])"
proof -
  define ps where "ps = [(int (length its) > maxItemsPerCart cfg, msg_max_exceeded cfg),
        ((\<exists>i \<in> set its. productType i = PLAN) \<and> \<not> (\<exists>i \<in> set its. productType i = PHONE),
           msg_plan_without_phone),
        (length (filter (\<lambda>i. productType i = PHONE) its) > 1, msg_one_phone),
        (length (filter (\<lambda>i. productType i = PLAN) its) > 1, msg_one_plan),
        ((\<exists>i \<in> set its. quantity i \<le> 0 \<or> quantity i \<notin> \<int>), msg_invalid_quantities)]"
  have e: "errors (validateCartRules cfg its) = map snd (filter fst ps)"
    unfolding ps_def by (rule errors_eq)
  have s: "map snd ps = [msg_max_exceeded cfg, msg_plan_without_phone, msg_one_phone,
      msg_one_plan, msg_invalid_quantities]"
    by (simp add: ps_def)
  have "subseq (map snd (filter fst ps)) (map snd ps)"
    by (intro subseq_map subseq_filter_left)
  then have ord: "subseq (errors (validateCartRules cfg its))
      [msg_max_exceeded cfg, msg_plan_without_phone, msg_one_phone, msg_one_plan,
       msg_invalid_quantities]"
    by (simp only: e s)
  have d: "distinct (map snd ps)"
    unfolding s by (rule msgs_distinct)
  have m1: "msg_max_exceeded cfg \<in> set (map snd (filter fst ps))
        \<longleftrightarrow> int (length its) > maxItemsPerCart cfg"
    by (rule mem_filter_pairs [OF d]) (simp add: ps_def)
  have m2: "msg_plan_without_phone \<in> set (map snd (filter fst ps))
        \<longleftrightarrow> (\<exists>i \<in> set its. productType i = PLAN)
            \<and> \<not> (\<exists>i \<in> set its. productType i = PHONE)"
    by (rule mem_filter_pairs [OF d]) (simp add: ps_def)
  have m3: "msg_one_phone \<in> set (map snd (filter fst ps))
        \<longleftrightarrow> length (filter (\<lambda>i. productType i = PHONE) its) > 1"
    by (rule mem_filter_pairs [OF d]) (simp add: ps_def)
  have m4: "msg_one_plan \<in> set (map snd (filter fst ps))
        \<longleftrightarrow> length (filter (\<lambda>i. productType i = PLAN) its) > 1"
    by (rule mem_filter_pairs [OF d]) (simp add: ps_def)
  have m5: "msg_invalid_quantities \<in> set (map snd (filter fst ps))
        \<longleftrightarrow> (\<exists>i \<in> set its. quantity i \<le> 0 \<or> quantity i \<notin> \<int>)"
    by (rule mem_filter_pairs [OF d]) (simp add: ps_def)
  have v: "valid (validateCartRules cfg its) \<longleftrightarrow> errors (validateCartRules cfg its) = []"
    by (simp add: validateCartRules_def Let_def)
  show ?thesis
    using ord m1 m2 m3 m4 m5 v unfolding e by blast
qed

text \<open>
  Whenever \<open>validateCart\<close> succeeds, with or without recovery, its result is
  \<open>validateCartRules\<close> on the live items the cart then has.
\<close>

lemma replay_frame_full:
  assumes "cartItems w cid = Some a"
  shows "\<exists>res d xs. replay gen now cid its w = (res, w\<lparr>draws := d, arrays := (arrays w)(a := xs)\<rparr>)"
proof -
  from replay_frame [OF assms, of gen now its] obtain d xs where
    "snd (replay gen now cid its w) = w\<lparr>draws := d, arrays := (arrays w)(a := xs)\<rparr>" by blast
  then show ?thesis by (cases "replay gen now cid its w") auto
qed

lemma validateCart_result:
  assumes "validateCart cfg gen now cart w = (Inr v, w')"
  shows "\<exists>its. liveItems now cart w' = Some its \<and> v = validateCartRules cfg its"
proof (cases "contextCache w cart")
  case None
  then show ?thesis using assms by (simp add: validateCart_def ensureValidContext_def)
next
  case (Some c)
  show ?thesis
  proof (cases "now > expiresAt (ctxObjs w c)")
    case False
    then show ?thesis
      using assms Some
      by (auto simp: validateCart_def ensureValidContext_def Let_def sf_getCartItems_def
          liveItems_def liveContext_def split: if_splits)
  next
    case True
    let ?cid = "''sf_ctx_'' @ gen 12 (draws w)"
    let ?ctx = "\<lparr>contextId = ?cid, cartId = cart,
           expiresAt = now + contextTTL w, createdAt = now\<rparr>"
    let ?w1 = "w\<lparr>draws := draws w + 1,
               ctxObjs := (ctxObjs w)(nextCtx w := ?ctx), nextCtx := nextCtx w + 1,
               arrays := (arrays w)(nextArr w := []), nextArr := nextArr w + 1,
               contexts := (contexts w)(?cid \<mapsto> nextCtx w),
               cartItems := (cartItems w)(?cid \<mapsto> nextArr w)\<rparr>"
    have "cartItems ?w1 ?cid = Some (nextArr w)" by simp
    from replay_frame_full [OF this, of gen now "shadowItems w cart"] obtain res d xs where
      p: "replay gen now ?cid (shadowItems w cart) ?w1
            = (res, ?w1\<lparr>draws := d, arrays := (arrays ?w1)(nextArr w := xs)\<rparr>)"
      by blast
    from True have lt: "expiresAt (ctxObjs w c) < now" by simp
    show ?thesis
      using assms
      unfolding validateCart_def ensureValidContext_recover [OF Some lt, of gen] p
      by (cases res)
         (auto simp: sf_getCartItems_def sf_isContextValid_def liveItems_def liveContext_def
            split: if_splits)
  qed
qed

text \<open>
  The provider's side of \<open>ensureValidContext\<close>: the TTL stays, every entry of the context map
  and of the item map other than the one of the new context id stays, and every context
  object other than the newly allocated one stays.
\<close>

lemma ensureValidContext_provider_frame:
  "contextTTL (snd (ensureValidContext gen now cart w)) = contextTTL w
   \<and> (\<forall>k. k \<noteq> ''sf_ctx_'' @ gen 12 (draws w) \<longrightarrow>
          contexts (snd (ensureValidContext gen now cart w)) k = contexts w k
          \<and> cartItems (snd (ensureValidContext gen now cart w)) k = cartItems w k)
   \<and> (\<forall>r. r \<noteq> nextCtx w \<longrightarrow> ctxObjs (snd (ensureValidContext gen now cart w)) r = ctxObjs w r)"
proof (cases "contextCache w cart")
  case None
  then show ?thesis by (simp add: ensureValidContext_def)
next
  case (Some c)
  show ?thesis
  proof (cases "now > expiresAt (ctxObjs w c)")
    case False
    then show ?thesis using Some by (simp add: ensureValidContext_def Let_def)
  next
    case True
    let ?cid = "''sf_ctx_'' @ gen 12 (draws w)"
    let ?ctx = "\<lparr>contextId = ?cid, cartId = cart,
           expiresAt = now + contextTTL w, createdAt = now\<rparr>"
    let ?w1 = "w\<lparr>draws := draws w + 1,
               ctxObjs := (ctxObjs w)(nextCtx w := ?ctx), nextCtx := nextCtx w + 1,
               arrays := (arrays w)(nextArr w := []), nextArr := nextArr w + 1,
               contexts := (contexts w)(?cid \<mapsto> nextCtx w),
               cartItems := (cartItems w)(?cid \<mapsto> nextArr w)\<rparr>"
    have "cartItems ?w1 ?cid = Some (nextArr w)" by simp
    from replay_frame_full [OF this, of gen now "shadowItems w cart"] obtain res d xs where
      p: "replay gen now ?cid (shadowItems w cart) ?w1
            = (res, ?w1\<lparr>draws := d, arrays := (arrays ?w1)(nextArr w := xs)\<rparr>)"
      by blast
    from True have lt: "expiresAt (ctxObjs w c) < now" by simp
    show ?thesis
      unfolding ensureValidContext_recover [OF Some lt, of gen] p
      by (cases res) simp_all
  qed
qed

lemma isInteger_half: "\<not> isInteger (1 / 2)"
proof -
  have f: "\<lfloor>(1::rat) / 2\<rfloor> = 0" by (simp add: floor_one_div)
  show ?thesis by (simp only: isInteger_def f)
qed

subsection \<open>The array shared after getCart\<close>

text \<open>
  After \<open>getCart\<close> the shadow store refers to the client's own array, so the \<open>addItem\<close>
  that follows pushes the new line onto that one array twice: once in the client, once for
  the shadow store.
\<close>

lemma addItem_after_getCart_pushes_twice:
  "shadowState (snd (getCart config gen0 2000 ''cart_0'' world1)) ''cart_0''
     = cartItems (snd (getCart config gen0 2000 ''cart_0'' world1)) ''sf_ctx_1''
   \<and> (\<exists>c w'. addItem config gen0 3000 ''cart_0'' ''addon_insurance'' 1
                 (snd (getCart config gen0 2000 ''cart_0'' world1)) = (Inr c, w')
         \<and> map id_ci (items c) = [''item_2'', ''item_2'']
         \<and> map_option (map id_ci) (liveItems 3000 ''cart_0'' w') = Some [''item_2'', ''item_2''])"
  by (simp add: ops scen)

subsection \<open>The cart of fifty lines\<close>

text \<open>
  Adding \<open>addon_insurance\<close> 49 times to the cart that holds the phone appends one line
  per call to the client's array (reference 0) and to the shadow array (reference 1).
\<close>

lemma world1_fields:
  "contextCache world1 ''cart_0'' = Some 0"
  "ctxObjs world1 0 = \<lparr>contextId = ''sf_ctx_1'', cartId = ''cart_0'', expiresAt = 301000, createdAt = 1000\<rparr>"
  "contexts world1 ''sf_ctx_1'' = Some 0"
  "cartItems world1 ''sf_ctx_1'' = Some 0"
  "shadowState world1 ''cart_0'' = Some 1"
  "arrays world1 0 = []" "arrays world1 (Suc 0) = []" "draws world1 = 2"
  by (simp_all add: ops scen)

lemma world_phone_eq:
  "world_phone = world1\<lparr>draws := 3, arrays := (arrays world1)(0 := [phone_line], 1 := [phone_line])\<rparr>"
  by (simp add: world_phone_def phone_line_def addItem_def ensureValidContext_def
      sf_getCartItems_def sf_isContextValid_def sf_addItem_def buildCart_def deref_def
      products_def canAddItemType_def Let_def world1_fields config_def calculateItemTotal_def
      toFixed2_def floor_numeral_div floor_one_div gen0_def show_nat.simps)

lemma insurance_line_fold:
  "\<lparr>id_ci = CHR ''i'' # CHR ''t'' # CHR ''e'' # CHR ''m'' # CHR ''_'' # show_nat n,
    productId = ''addon_insurance'', productName = ''Device Insurance'', productType = ADDON,
    quantity = 1, unitPrice = 12, totalPrice = 12\<rparr> = insurance_line n"
  by (simp add: insurance_line_def)

lemma upt_3_step: "[3..<4 + n] = [3..<3 + n] @ [3 + n]"
proof -
  have "4 + n = Suc (3 + n)" by simp
  then show ?thesis by (simp only: upt_Suc_append le_add1)
qed

lemma addInsurance_step:
  assumes "n < 49"
  shows "addInsurance (world1\<lparr>draws := 3 + n,
            arrays := (arrays world1)(0 := phone_line # map insurance_line [3..<3 + n],
                                      1 := phone_line # map insurance_line [3..<3 + n])\<rparr>)
         = world1\<lparr>draws := 3 + Suc n,
            arrays := (arrays world1)(0 := phone_line # map insurance_line [3..<3 + Suc n],
                                      1 := phone_line # map insurance_line [3..<3 + Suc n])\<rparr>"
  using assms
  by (simp add: addInsurance_def addItem_def ensureValidContext_def
      sf_getCartItems_def sf_isContextValid_def sf_addItem_def buildCart_def deref_def
      products_def canAddItemType_def Let_def world1_fields config_def calculateItemTotal_def
      toFixed2_def floor_numeral_div floor_one_div gen0_def insurance_line_fold upt_3_step)

lemma addInsurance_funpow:
  "n \<le> 49 \<Longrightarrow> (addInsurance ^^ n) world_phone
     = world1\<lparr>draws := 3 + n,
         arrays := (arrays world1)(0 := phone_line # map insurance_line [3..<3 + n],
                                   1 := phone_line # map insurance_line [3..<3 + n])\<rparr>"
proof (induction n)
  case 0
  then show ?case by (simp add: world_phone_eq) (simp add: fun_upd_def)
next
  case (Suc n)
  then have n: "n < 49" by simp
  then have "n \<le> 49" by simp
  note IH = Suc.IH [OF this]
  show ?case
    unfolding funpow.simps comp_apply IH by (rule addInsurance_step [OF n])
qed

lemma world50_eq:
  "world50 = world1\<lparr>draws := 52, arrays := (arrays world1)(0 := items50, 1 := items50)\<rparr>"
proof -
  have "(addInsurance ^^ 49) world_phone
     = world1\<lparr>draws := 3 + 49,
         arrays := (arrays world1)(0 := phone_line # map insurance_line [3..<3 + 49],
                                   1 := phone_line # map insurance_line [3..<3 + 49])\<rparr>"
    by (rule addInsurance_funpow) simp
  moreover have "3 + 49 = (52::nat)" by simp
  ultimately show ?thesis
    by (simp only: world50_def items50_def)
qed

subsection \<open>Allocated references\<close>

text \<open>
  The services start with empty maps, and every operation keeps the references held by the
  maps below the allocation counters: a reference handed out later is new to all of them.
\<close>

lemma refs_allocated_newWorld: "refs_allocated (newWorld ttl)"
  by (simp add: refs_allocated_def newWorld_def)

lemma refs_allocated_createContext:
  "refs_allocated w \<Longrightarrow> refs_allocated (snd (sf_createContext gen now cart w))"
  by (auto simp: refs_allocated_def sf_createContext_def Let_def less_Suc_eq)

lemma refs_allocated_initializeCart:
  "refs_allocated w \<Longrightarrow> refs_allocated (snd (initializeCart cfg gen now w))"
  by (auto simp: refs_allocated_def initializeCart_def sf_createContext_def Let_def less_Suc_eq)

lemma refs_allocated_sf_addItem:
  "refs_allocated w \<Longrightarrow> refs_allocated (snd (sf_addItem gen now cid req w))"
  by (auto simp: refs_allocated_def sf_addItem_def Let_def less_Suc_eq split: option.splits)

lemma refs_allocated_replay:
  "refs_allocated w \<Longrightarrow> refs_allocated (snd (replay gen now cid its w))"
proof (induction its arbitrary: w)
  case Nil
  then show ?case by simp
next
  case (Cons x xs)
  obtain res w1 where s: "sf_addItem gen now cid (replayRequest x) w = (res, w1)"
    by (cases "sf_addItem gen now cid (replayRequest x) w")
  with refs_allocated_sf_addItem [OF Cons.prems, of gen now cid "replayRequest x"]
  have "refs_allocated w1" by simp
  then show ?case
    using Cons.IH [of w1] by (cases res) (simp_all add: s)
qed

lemma refs_allocated_cache_upd:
  "refs_allocated w \<Longrightarrow> c < nextCtx w \<Longrightarrow>
     refs_allocated (w\<lparr>contextCache := (contextCache w)(cart \<mapsto> c)\<rparr>)"
  by (auto simp: refs_allocated_def)

lemma replay_nextCtx: "nextCtx (snd (replay gen now cid its w)) = nextCtx w"
  by (induction its arbitrary: w)
     (auto simp: sf_addItem_def Let_def split: prod.splits sum.splits option.splits if_splits)

lemma refs_allocated_ensureValidContext:
  assumes "refs_allocated w"
  shows "refs_allocated (snd (ensureValidContext gen now cart w))"
proof (cases "contextCache w cart")
  case None
  then show ?thesis using assms by (simp add: ensureValidContext_def)
next
  case (Some c)
  show ?thesis
  proof (cases "now > expiresAt (ctxObjs w c)")
    case False
    then show ?thesis using Some assms by (simp add: ensureValidContext_def Let_def)
  next
    case True
    obtain c' w1 where cr: "sf_createContext gen now cart w = (c', w1)"
      by (cases "sf_createContext gen now cart w")
    have c': "c' = nextCtx w" "nextCtx w1 = nextCtx w + 1"
      using cr by (auto simp: sf_createContext_def Let_def)
    have r1: "refs_allocated w1"
      using refs_allocated_createContext [OF assms, of gen now cart] cr by simp
    obtain res w2 where rp: "replay gen now (contextId (ctxObjs w1 c')) (deref w (shadowState w cart)) w1 = (res, w2)"
      by (cases "replay gen now (contextId (ctxObjs w1 c')) (deref w (shadowState w cart)) w1")
    have r2: "refs_allocated w2"
      using refs_allocated_replay [OF r1, of gen now "contextId (ctxObjs w1 c')" "deref w (shadowState w cart)"] rp
      by simp
    have n2: "nextCtx w2 = nextCtx w + 1"
      using replay_nextCtx [of gen now "contextId (ctxObjs w1 c')" "deref w (shadowState w cart)" w1] rp c'
      by simp
    have "refs_allocated (w2\<lparr>contextCache := (contextCache w2)(cart \<mapsto> c')\<rparr>)"
      by (rule refs_allocated_cache_upd [OF r2]) (simp add: n2 c')
    then show ?thesis
      using Some True r2
      by (cases res) (simp_all add: ensureValidContext_def Let_def cr rp)
  qed
qed

lemma refs_allocated_validateCart:
  "refs_allocated w \<Longrightarrow> refs_allocated (snd (validateCart cfg gen now cart w))"
  by (simp add: validateCart_snd refs_allocated_ensureValidContext)

lemma refs_allocated_getCart:
  assumes "refs_allocated w"
  shows "refs_allocated (snd (getCart cfg gen now cart w))"
proof -
  obtain res w1 where e: "ensureValidContext gen now cart w = (res, w1)"
    by (cases "ensureValidContext gen now cart w")
  with refs_allocated_ensureValidContext [OF assms, of gen now cart]
  have "refs_allocated w1" by simp
  then show ?thesis
    by (auto simp: getCart_def e sf_getCartItems_def refs_allocated_def Let_def less_Suc_eq
        split: sum.splits option.splits)
qed

lemma refs_allocated_addItem:
  assumes "refs_allocated w"
  shows "refs_allocated (snd (addItem cfg gen now cart pid q w))"
proof (cases "products pid")
  case None
  then show ?thesis using assms by (simp add: addItem_def)
next
  case (Some p)
  obtain res w1 where e: "ensureValidContext gen now cart w = (res, w1)"
    by (cases "ensureValidContext gen now cart w")
  with refs_allocated_ensureValidContext [OF assms, of gen now cart]
  have r1: "refs_allocated w1" by simp
  show ?thesis
  proof (cases res)
    case (Inl err)
    then show ?thesis using r1 Some by (simp add: addItem_def e)
  next
    case (Inr cid)
    let ?req = "\<lparr>productId_req = id_pr p, productName_req = name_pr p,
                   productType_req = type_pr p, quantity_req = q,
                   unitPrice_req = price p,
                   totalPrice_req = calculateItemTotal (price p) q\<rparr>"
    obtain res2 w2 where s: "sf_addItem gen now cid ?req w1 = (res2, w2)"
      by (cases "sf_addItem gen now cid ?req w1")
    with refs_allocated_sf_addItem [OF r1, of gen now cid ?req]
    have r2: "refs_allocated w2" by simp
    then have "refs_allocated (case shadowState w2 cart of
          Some a \<Rightarrow> w2\<lparr>arrays := (arrays w2)(a := arrays w2 a @ [x])\<rparr>
        | None \<Rightarrow> w2\<lparr>arrays := (arrays w2)(nextArr w2 := [x]), nextArr := nextArr w2 + 1,
                       shadowState := (shadowState w2)(cart \<mapsto> nextArr w2)\<rparr>)" for x
      by (auto simp: refs_allocated_def less_Suc_eq split: option.splits)
    then show ?thesis
      using Some Inr r1 r2
      by (auto simp: addItem_def e s Let_def split: sum.splits option.splits)
  qed
qed

lemma refs_allocated_updateItem:
  assumes "refs_allocated w"
  shows "refs_allocated (snd (updateItem cfg gen now cart itemId q w))"
proof -
  obtain res w1 where e: "ensureValidContext gen now cart w = (res, w1)"
    by (cases "ensureValidContext gen now cart w")
  with refs_allocated_ensureValidContext [OF assms, of gen now cart]
  have "refs_allocated w1" by simp
  then show ?thesis
    by (auto simp: updateItem_def e sf_updateItem_def refs_allocated_def Let_def
        split: sum.splits option.splits prod.splits if_splits)
qed

lemma refs_allocated_removeItem:
  assumes "refs_allocated w"
  shows "refs_allocated (snd (removeItem cfg gen now cart itemId w))"
proof -
  obtain res w1 where e: "ensureValidContext gen now cart w = (res, w1)"
    by (cases "ensureValidContext gen now cart w")
  with refs_allocated_ensureValidContext [OF assms, of gen now cart]
  have "refs_allocated w1" by simp
  then show ?thesis
    by (auto simp: removeItem_def e sf_removeItem_def refs_allocated_def Let_def
        split: sum.splits option.splits prod.splits if_splits)
qed

lemma refs_allocated_expireContext:
  "refs_allocated w \<Longrightarrow> refs_allocated (sf_expireContext now cid w)"
  by (auto simp: refs_allocated_def sf_expireContext_def split: option.splits)

subsection \<open>C1: getCart after the context has expired\<close>

text \<open>
  C1. On an initialized cart whose cached context has expired (the current time is past
  its \<open>expiresAt\<close>), on a client with a positive TTL, \<open>getCart\<close> succeeds through
  recovery and returns the lines the shadow store held, in the same order and with the
  same product, name, category, quantity, unit price and total price; the identifiers of
  the returned lines are the ones drawn during the replay. Afterwards the returned lines
  are both the live items and the shadow items of the cart.
\<close>

theorem getCart_recovers_shadow_items:
  assumes "contextCache w cart = Some c" and "expiresAt (ctxObjs w c) < now"
    and "0 < contextTTL w"
  shows "\<exists>cv w'. getCart cfg gen now cart w = (Inr cv, w')
           \<and> id_cart cv = cart
           \<and> map item_content (items cv) = map item_content (shadowItems w cart)
           \<and> map id_ci (items cv)
               = map (\<lambda>i. ''item_'' @ gen 8 (draws w + 1 + i)) [0..<length (shadowItems w cart)]
           \<and> liveItems now cart w' = Some (items cv)
           \<and> shadowItems w' cart = items cv"
proof -
  let ?its = "replayed gen (draws w + 1) (shadowItems w cart)"
  have "\<exists>w'. getCart cfg gen now cart w = (Inr (buildCart cfg now cart ?its), w')
           \<and> liveItems now cart w' = Some ?its \<and> shadowItems w' cart = ?its"
    using assms(3)
    by (simp add: getCart_def ensureValidContext_expired [OF assms] sf_getCartItems_def
        sf_isContextValid_def liveItems_def liveContext_def shadowItems_def deref_def)
  then show ?thesis
    by (auto simp: buildCart_def Let_def replayed_content replayed_ids)
qed

text \<open>
  The test of the repository: a phone is added, \<open>expireContext\<close> is called, and
  \<open>getCart\<close> returns the phone under the new identifier \<open>item_4\<close>.
\<close>

theorem getCart_recovers_shadow_items_witness:
  "contextCache world_phone_expired ''cart_0'' = Some 0
   \<and> expiresAt (ctxObjs world_phone_expired 0) = 2000 \<and> (2000::int) < 3000
   \<and> 0 < contextTTL world_phone_expired
   \<and> map id_ci (shadowItems world_phone_expired ''cart_0'') = [''item_2'']
   \<and> (\<exists>cv w'. getCart config gen0 3000 ''cart_0'' world_phone_expired = (Inr cv, w')
         \<and> map item_content (items cv)
             = [(''phone_iphone15'', ''iPhone 15 Pro'', PHONE, 1, 139999 / 100, 139999 / 100)]
         \<and> map id_ci (items cv) = [''item_4''])"
proof -
  have a: "contextCache world_phone_expired ''cart_0'' = Some 0"
    and b: "expiresAt (ctxObjs world_phone_expired 0) < 3000"
    and b': "expiresAt (ctxObjs world_phone_expired 0) = 2000"
    and t: "0 < contextTTL world_phone_expired"
    and d: "draws world_phone_expired = 3"
    and s: "shadowItems world_phone_expired ''cart_0'' =
       [\<lparr>id_ci = ''item_2'', productId = ''phone_iphone15'', productName = ''iPhone 15 Pro'',
         productType = PHONE, quantity = 1, unitPrice = 139999 / 100,
         totalPrice = 139999 / 100\<rparr>]"
    by (simp_all add: world_phone_expired_def world_phone_def sf_expireContext_def
        shadowItems_def ops scen)
  show ?thesis
    using getCart_recovers_shadow_items [OF a b t, of config gen0] a b' t
    by (auto simp: s d item_content_def gen0_def show_nat.simps)
qed

subsection \<open>C2: the provider's expiry error at the instant of expiry\<close>

text \<open>
  C2. The claim says that no orchestrator operation lets the provider's
  \<open>SF_CONTEXT_EXPIRED\<close> reach the caller, at any current time. The code recovers only when
  \<open>now > expiresAt\<close>, while the provider accepts a context only when \<open>now < expiresAt\<close>.
  At the instant \<open>now = expiresAt\<close>, which for a cart just initialized is creation time
  plus the TTL, every operation keeps the cached context and the provider then rejects
  it: \<open>getCart\<close>, \<open>validateCart\<close>, \<open>addItem\<close> of a catalog product, \<open>updateItem\<close> and
  \<open>removeItem\<close> all fail with \<open>SF_CONTEXT_EXPIRED\<close>.
\<close>

theorem context_expired_leaks_at_expiry_instant:
  "fst (getCart cfg gen (now + contextTTL w) (id_cart (fst (initializeCart cfg gen now w)))
          (snd (initializeCart cfg gen now w))) = Inl (Error ''SF_CONTEXT_EXPIRED'')
   \<and> fst (validateCart cfg gen (now + contextTTL w) (id_cart (fst (initializeCart cfg gen now w)))
          (snd (initializeCart cfg gen now w))) = Inl (Error ''SF_CONTEXT_EXPIRED'')
   \<and> fst (addItem cfg gen (now + contextTTL w) (id_cart (fst (initializeCart cfg gen now w)))
          ''phone_iphone15'' q (snd (initializeCart cfg gen now w)))
        = Inl (Error ''SF_CONTEXT_EXPIRED'')
   \<and> fst (updateItem cfg gen (now + contextTTL w) (id_cart (fst (initializeCart cfg gen now w)))
          itemId q (snd (initializeCart cfg gen now w))) = Inl (Error ''SF_CONTEXT_EXPIRED'')
   \<and> fst (removeItem cfg gen (now + contextTTL w) (id_cart (fst (initializeCart cfg gen now w)))
          itemId (snd (initializeCart cfg gen now w))) = Inl (Error ''SF_CONTEXT_EXPIRED'')"
  by (simp add: getCart_def validateCart_def addItem_def updateItem_def removeItem_def
        sf_updateItem_def sf_removeItem_def products_def initializeCart_def
        sf_createContext_def ensureValidContext_def sf_getCartItems_def
        sf_isContextValid_def Let_def buildCart_def)

text \<open>
  The cart \<open>cart_0\<close> created at time 1000 with the default TTL, read at time 301000.
\<close>

theorem context_expired_leaks_at_expiry_instant_witness:
  "id_cart (fst (initializeCart config gen0 1000 world0)) = ''cart_0''
   \<and> 1000 + contextTTL world0 = 301000
   \<and> fst (getCart config gen0 301000 ''cart_0'' world1) = Inl (Error ''SF_CONTEXT_EXPIRED'')"
  using context_expired_leaks_at_expiry_instant [of config gen0 1000 world0]
  by (simp add: world1_def world0_def newWorld_def initializeCart_def gen0_def buildCart_def
        Let_def sf_createContext_def show_nat.simps)

subsection \<open>C3: shadow store and live store after a mutation\<close>

text \<open>
  C3. The claim says that after every successful \<open>addItem\<close>, \<open>updateItem\<close> or
  \<open>removeItem\<close>, recovery included, the shadow store and the provider's store of the
  current context hold the same lines with the same identifiers. When \<open>addItem\<close> runs
  the recovery, the replay gives the old lines new identifiers in the provider, and the
  shadow store is not rewritten: before the call both stores hold the phone as \<open>item_2\<close>;
  after it the shadow store and the returned view hold \<open>item_2, item_5\<close> and the
  provider holds \<open>item_4, item_5\<close>, so that \<open>updateItem\<close> on the \<open>item_2\<close> of the
  view fails with \<open>ITEM_NOT_FOUND\<close>. (\<open>getCart\<close> copies the provider's lines into the
  shadow store after the same recovery.)
\<close>

theorem shadow_keeps_stale_ids_after_recovery:
  "liveItems 2000 ''cart_0'' world_phone = Some (shadowItems world_phone ''cart_0'')
   \<and> map id_ci (shadowItems world_phone ''cart_0'') = [''item_2'']
   \<and> (\<exists>c. fst (addItem config gen0 400000 ''cart_0'' ''addon_insurance'' 1 world_phone) = Inr c
         \<and> map id_ci (items c) = [''item_2'', ''item_5''])
   \<and> map id_ci (shadowItems world_readded ''cart_0'') = [''item_2'', ''item_5'']
   \<and> map_option (map id_ci) (liveItems 400000 ''cart_0'' world_readded)
       = Some [''item_4'', ''item_5'']
   \<and> map productId (shadowItems world_readded ''cart_0'') = [''phone_iphone15'', ''addon_insurance'']
   \<and> map_option (map productId) (liveItems 400000 ''cart_0'' world_readded)
       = Some [''phone_iphone15'', ''addon_insurance'']
   \<and> fst (updateItem config gen0 400000 ''cart_0'' ''item_2'' 2 world_readded)
       = Inl (Error ''ITEM_NOT_FOUND'')"
  by (simp add: world_readded_def world_phone_def shadowItems_def ops scen)

subsection \<open>C4: a second phone is rejected before anything is written\<close>

text \<open>
  C4 as stated: on a cart whose live items include a phone, \<open>addItem\<close> of a phone product
  fails with the message "Only one phone is allowed per cart" and changes nothing. The
  message is not always that one: \<open>canAddItemType\<close> tests the item count first, so a
  full cart answers with the max-items message. Shown on a cart limited to two lines and
  holding a phone and an add-on, and on the default limit of fifty with the cart reached by
  adding a phone and then 49 add-on lines.
\<close>

theorem addItem_second_phone_message_counterexample:
  "map_option (map productType) (liveItems 4000 ''cart_0'' world_full2) = Some [PHONE, ADDON]
   \<and> fst (addItem config2 gen0 4000 ''cart_0'' ''phone_samsung_s24'' 1 world_full2)
       = Inl (Error ''Cart has reached maximum of 2 items'')
   \<and> liveItems 4000 ''cart_0'' world50 = Some items50
   \<and> length items50 = 50 \<and> productType (hd items50) = PHONE
   \<and> fst (addItem config gen0 4000 ''cart_0'' ''phone_samsung_s24'' 1 world50)
       = Inl (Error ''Cart has reached maximum of 50 items'')
   \<and> ''Cart has reached maximum of 50 items'' \<noteq> ''Only one phone is allowed per cart''"
proof -
  have a: "map_option (map productType) (liveItems 4000 ''cart_0'' world_full2)
             = Some [PHONE, ADDON]
   \<and> fst (addItem config2 gen0 4000 ''cart_0'' ''phone_samsung_s24'' 1 world_full2)
       = Inl (Error ''Cart has reached maximum of 2 items'')"
    by (simp add: world_full2_def config2_def ops scen msg_max_reached_def)
  have l: "length items50 = 50 \<and> productType (hd items50) = PHONE"
    by (simp add: items50_def phone_line_def)
  have b: "liveItems 4000 ''cart_0'' world50 = Some items50"
    by (simp add: world50_eq ops scen)
  have c: "fst (addItem config gen0 4000 ''cart_0'' ''phone_samsung_s24'' 1 world50)
       = Inl (Error ''Cart has reached maximum of 50 items'')"
    by (simp add: world50_eq ops scen l msg_max_reached_def)
  show ?thesis using a b c l by simp
qed

text \<open>
  C4, amended: on a cart whose live items include a phone, \<open>addItem\<close> of any phone product
  of the catalog fails with a business-rule error and leaves the whole state (the
  provider's stores, the shadow store, the cache) exactly as it was: the error is the
  max-items message when the cart already holds the configured maximum of lines, and
  "Only one phone is allowed per cart" otherwise.
\<close>

theorem addItem_second_phone_rejected:
  assumes "products pid = Some p" and "type_pr p = PHONE"
    and "liveItems now cart w = Some its"
    and "\<exists>i \<in> set its. productType i = PHONE"
  shows "addItem cfg gen now cart pid q w =
           (Inl (Error (if maxItemsPerCart cfg \<le> int (length its)
                        then msg_max_reached cfg else msg_one_phone)), w)"
proof -
  from assms(3) obtain cid where l: "liveContext now cart w = Some cid"
    and i: "its = deref w (cartItems w cid)"
    using liveItemsD by blast
  show ?thesis
    using assms(2,4) i
    by (simp add: addItem_live [OF assms(1) l] canAddItemType_def Let_def filter_ge1)
qed

text \<open>The cart that holds \<open>phone_iphone15\<close>, asked for \<open>phone_samsung_s24\<close>.\<close>

theorem addItem_second_phone_rejected_witness:
  "products ''phone_samsung_s24'' \<noteq> None
   \<and> liveItems 3000 ''cart_0'' world_phone = Some [phone_line]
   \<and> productType phone_line = PHONE
   \<and> addItem config gen0 3000 ''cart_0'' ''phone_samsung_s24'' 1 world_phone
      = (Inl (Error ''Only one phone is allowed per cart''), world_phone)"
proof -
  let ?p = "\<lparr>id_pr = ''phone_samsung_s24'', name_pr = ''Samsung Galaxy S24'',
         type_pr = PHONE, price = 119999 / 100, requiresPhone = None\<rparr>"
  have p: "products ''phone_samsung_s24'' = Some ?p"
    by (simp add: products_def)
  have l: "liveItems 3000 ''cart_0'' world_phone = Some [phone_line]"
    by (simp add: world_phone_def phone_line_def ops scen)
  have t: "productType phone_line = PHONE"
    by (simp add: phone_line_def)
  show ?thesis
    using addItem_second_phone_rejected [OF p _ l, of config gen0 1] p l t
    by (simp add: config_def msg_one_phone_def)
qed

subsection \<open>C5: the totals of a cart view\<close>

text \<open>
  C5. The claim says that in every cart view built by the orchestrator each line total is
  \<open>round2 (unitPrice * quantity)\<close>, and that subtotal, tax and total are rounded one after
  the other. The view returned by \<open>updateItem\<close> carries the line the provider
  recomputed without rounding: with quantity \<open>0.5\<close> on the earbuds line (199.99) the view
  shows the line total \<open>99.995\<close>, where the rounded product is \<open>100\<close>; subtotal, tax
  and total of that view are \<open>100\<close>, \<open>13\<close> and \<open>113\<close>. The lemmas
  \<open>buildCart_pricing\<close> and \<open>pricing_scenario\<close> above cover the rest of the claim.
\<close>

theorem updateItem_view_line_total_not_rounded:
  "\<exists>c w'. updateItem config gen0 3000 ''cart_0'' ''item_2'' (1 / 2) world_earbuds = (Inr c, w')
     \<and> map (\<lambda>i. (unitPrice i, quantity i, totalPrice i)) (items c)
         = [(19999 / 100, 1 / 2, 19999 / 200)]
     \<and> map (\<lambda>i. calculateItemTotal (unitPrice i) (quantity i)) (items c) = [100]
     \<and> subtotal c = 100 \<and> tax c = 13 \<and> total_cart c = 113"
  by (simp add: world_earbuds_def ops scen calculateSubtotal_def calculateTax_def
      calculateTotal_def)

subsection \<open>C6: the order of the validation messages\<close>

text \<open>
  C6. \<open>validateCart\<close> reports the violations of the cart's items in the fixed order
  max-item-count, plan-without-phone, multiple-phones, multiple-plans,
  invalid-quantities, and \<open>valid\<close> holds exactly when the errors list is empty
  (\<open>rule_report\<close>). On a cart with live items \<open>its\<close> it succeeds, changes nothing and
  reports on \<open>its\<close>; whenever it succeeds, after a recovery too, its result reports on
  the live items the cart then has; and \<open>validateCartRules\<close>, which it applies, reports
  so on every item list.
\<close>

theorem validateCart_error_order:
  "(liveItems now cart w = Some its
      \<longrightarrow> (\<exists>v. validateCart cfg gen now cart w = (Inr v, w) \<and> rule_report cfg its v))
   \<and> (validateCart cfg gen now cart w = (Inr v', w')
      \<longrightarrow> (\<exists>its'. liveItems now cart w' = Some its' \<and> rule_report cfg its' v'))
   \<and> rule_report cfg xs (validateCartRules cfg xs)"
proof -
  have p: "rule_report cfg ys (validateCartRules cfg ys)" for ys
    unfolding rule_report_def by (rule validateCartRules_order)
  have a: "liveItems now cart w = Some its
      \<longrightarrow> (\<exists>v. validateCart cfg gen now cart w = (Inr v, w) \<and> rule_report cfg its v)"
    using validateCart_live [of now cart w its cfg gen] p by blast
  have b: "validateCart cfg gen now cart w = (Inr v', w')
      \<longrightarrow> (\<exists>its'. liveItems now cart w' = Some its' \<and> rule_report cfg its' v')"
    using validateCart_result [of cfg gen now cart w v' w'] p by blast
  show ?thesis using a b p by blast
qed

text \<open>
  The cart holding one plan of quantity \<open>0.5\<close> and no phone breaks the second and the
  fifth rule; the four lines of \<open>items4\<close> break the first, third, fourth and fifth.
\<close>

theorem validateCart_error_order_witness:
  "liveItems 3000 ''cart_0'' world_plan_half = Some [plan_half_line]
   \<and> validateCart config gen0 3000 ''cart_0'' world_plan_half
       = (Inr \<lparr>valid = False, errors = [msg_plan_without_phone, msg_invalid_quantities]\<rparr>,
          world_plan_half)
   \<and> rule_report config [plan_half_line]
        \<lparr>valid = False, errors = [msg_plan_without_phone, msg_invalid_quantities]\<rparr>
   \<and> errors (validateCartRules config3 items4)
       = [''Cart exceeds maximum of 3 items'', msg_one_phone, msg_one_plan, msg_invalid_quantities]
   \<and> rule_report config3 items4 (validateCartRules config3 items4)"
proof -
  let ?v = "\<lparr>valid = False, errors = [msg_plan_without_phone, msg_invalid_quantities]\<rparr>"
  have l: "liveItems 3000 ''cart_0'' world_plan_half = Some [plan_half_line]"
    by (simp add: world_plan_half_def world_plan_def plan_half_line_def ops scen)
  have r: "validateCartRules config [plan_half_line] = ?v"
    by (simp add: validateCartRules_def Let_def plan_half_line_def config_def isInteger_half)
  have e: "validateCart config gen0 3000 ''cart_0'' world_plan_half = (Inr ?v, world_plan_half)"
    using validateCart_live [OF l, of config gen0] r by simp
  note t = validateCart_error_order [of 3000 "''cart_0''" world_plan_half "[plan_half_line]"
      config gen0 ?v world_plan_half items4]
  from t l e have p: "rule_report config [plan_half_line] ?v" by auto
  have x: "errors (validateCartRules config3 items4)
       = [''Cart exceeds maximum of 3 items'', msg_one_phone, msg_one_plan, msg_invalid_quantities]"
    by (simp add: validateCartRules_def Let_def items4_def mkItem_def config3_def config_def
        isInteger_def msg_max_exceeded_def show_int_def show_nat.simps)
  have y: "rule_report config3 items4 (validateCartRules config3 items4)"
    using validateCart_error_order [of 0 "[]" world0 "[]" config3 gen0 undefined world0 items4]
    by blast
  show ?thesis using l e p x y by blast
qed

subsection \<open>C7: a plan without a phone\<close>

text \<open>
  C7 as stated: on every cart without a phone, \<open>addItem\<close> of a plan succeeds. A cart
  that already holds a plan has no phone either, and there \<open>addItem\<close> of a second plan
  fails with "Only one plan is allowed per cart".
\<close>

theorem addItem_plan_without_phone_counterexample:
  "map_option (map productType) (liveItems 3000 ''cart_0'' world_plan) = Some [PLAN]
   \<and> fst (addItem config gen0 3000 ''cart_0'' ''plan_5gb'' 1 world_plan)
       = Inl (Error ''Only one plan is allowed per cart'')"
  by (simp add: world_plan_def ops scen msg_one_plan_def)

text \<open>
  C7, amended: on a cart whose live items hold no phone, no plan and fewer lines than the
  configured maximum, \<open>addItem\<close> of a plan product succeeds (no phone is required at
  add time) and the returned view ends with the new line; and on a cart whose live items
  are exactly one plan line of quantity 1, with a configured maximum of at least one,
  \<open>validateCart\<close> returns \<open>valid = false\<close> with the plan-requires-phone message as
  its only error, and changes nothing.
\<close>

theorem addItem_plan_without_phone:
  "(products pid = Some p \<and> type_pr p = PLAN \<and> liveItems now cart w = Some its
      \<and> (\<forall>i \<in> set its. productType i \<noteq> PHONE) \<and> (\<forall>i \<in> set its. productType i \<noteq> PLAN)
      \<and> int (length its) < maxItemsPerCart cfg
    \<longrightarrow> (\<exists>c w'. addItem cfg gen now cart pid q w = (Inr c, w') \<and> items c \<noteq> []
          \<and> item_content (last (items c))
              = (id_pr p, name_pr p, PLAN, q, price p, calculateItemTotal (price p) q)))
   \<and> (liveItems now cart w = Some [item] \<and> productType item = PLAN \<and> quantity item = 1
      \<and> 1 \<le> maxItemsPerCart cfg
    \<longrightarrow> validateCart cfg gen now cart w
          = (Inr \<lparr>valid = False, errors = [msg_plan_without_phone]\<rparr>, w))"
proof (intro conjI impI)
  assume a: "products pid = Some p \<and> type_pr p = PLAN \<and> liveItems now cart w = Some its
      \<and> (\<forall>i \<in> set its. productType i \<noteq> PHONE) \<and> (\<forall>i \<in> set its. productType i \<noteq> PLAN)
      \<and> int (length its) < maxItemsPerCart cfg"
  then obtain cid where l: "liveContext now cart w = Some cid"
    and i: "its = deref w (cartItems w cid)"
    using liveItemsD by blast
  from a have p: "products pid = Some p" by simp
  have f: "filter (\<lambda>item. productType item = PLAN) its = []"
    using a by (simp add: filter_none)
  have ok: "allowed (canAddItemType cfg (deref w (cartItems w cid)) (type_pr p))"
    using a f by (simp add: canAddItemType_def i [symmetric])
  show "\<exists>c w'. addItem cfg gen now cart pid q w = (Inr c, w') \<and> items c \<noteq> []
          \<and> item_content (last (items c))
              = (id_pr p, name_pr p, PLAN, q, price p, calculateItemTotal (price p) q)"
    using a ok sf_isContextValid_live [OF l]
    by (simp add: addItem_live [OF p l] Let_def sf_addItem_def buildCart_def item_content_def
        split: option.splits)
next
  assume b: "liveItems now cart w = Some [item] \<and> productType item = PLAN \<and> quantity item = 1
      \<and> 1 \<le> maxItemsPerCart cfg"
  then have l: "liveItems now cart w = Some [item]" by simp
  show "validateCart cfg gen now cart w
          = (Inr \<lparr>valid = False, errors = [msg_plan_without_phone]\<rparr>, w)"
    using b by (simp add: validateCart_live [OF l] validateCartRules_def Let_def isInteger_def)
qed

text \<open>
  The empty cart \<open>cart_0\<close> takes \<open>plan_unlimited\<close> (85.00, quantity 1), and is then
  validated.
\<close>

theorem addItem_plan_without_phone_witness:
  "products ''plan_unlimited'' \<noteq> None \<and> liveItems 2000 ''cart_0'' world1 = Some []
   \<and> (\<exists>c w'. addItem config gen0 2000 ''cart_0'' ''plan_unlimited'' 1 world1 = (Inr c, w'))
   \<and> map_option (map item_content) (liveItems 3000 ''cart_0'' world_plan)
        = Some [(''plan_unlimited'', ''Unlimited Plan'', PLAN, 1, 85, 85)]
   \<and> validateCart config gen0 3000 ''cart_0'' world_plan
        = (Inr \<lparr>valid = False,
                errors = [''Cart contains plans but no phone. Plans require a phone.'']\<rparr>,
           world_plan)"
proof -
  let ?p = "\<lparr>id_pr = ''plan_unlimited'', name_pr = ''Unlimited Plan'',
         type_pr = PLAN, price = 85, requiresPhone = Some True\<rparr>"
  let ?i = "\<lparr>id_ci = ''item_2'', productId = ''plan_unlimited'', productName = ''Unlimited Plan'',
      productType = PLAN, quantity = 1, unitPrice = 85, totalPrice = 85\<rparr>"
  have p: "products ''plan_unlimited'' = Some ?p"
    by (simp add: products_def)
  have l1: "liveItems 2000 ''cart_0'' world1 = Some []"
    by (simp add: ops scen)
  have l2: "liveItems 3000 ''cart_0'' world_plan = Some [?i]"
    by (simp add: world_plan_def ops scen)
  have m: "(1::int) \<le> maxItemsPerCart config" "int (length ([]::CartItem list)) < maxItemsPerCart config"
    by (simp_all add: config_def)
  from addItem_plan_without_phone [where pid = "''plan_unlimited''" and p = ?p and now = 2000 and cart = "''cart_0''"
                and w = world1 and its = "[]" and cfg = config and gen = gen0 and q = 1]
  have "\<exists>c w'. addItem config gen0 2000 ''cart_0'' ''plan_unlimited'' 1 world1 = (Inr c, w')
          \<and> items c \<noteq> []
          \<and> item_content (last (items c))
              = (id_pr ?p, name_pr ?p, PLAN, 1, price ?p, calculateItemTotal (price ?p) 1)"
    using p l1 m by simp
  then have a: "\<exists>c w'. addItem config gen0 2000 ''cart_0'' ''plan_unlimited'' 1 world1 = (Inr c, w')"
    by blast
  from addItem_plan_without_phone [where now = 3000 and cart = "''cart_0''" and w = world_plan and item = ?i
                and cfg = config and gen = gen0]
  have v: "validateCart config gen0 3000 ''cart_0'' world_plan
          = (Inr \<lparr>valid = False, errors = [msg_plan_without_phone]\<rparr>, world_plan)"
    using l2 m by simp
  show ?thesis
    using p l1 l2 a v by (simp add: msg_plan_without_phone_def item_content_def)
qed

subsection \<open>C8: the line total after an update\<close>

text \<open>
  C8. The claim says that every stored line satisfies
  \<open>totalPrice = round2 (unitPrice * quantity)\<close> and that every operation, the provider's
  \<open>updateItem\<close> in particular, preserves this. \<open>addItem\<close> rounds through
  \<open>calculateItemTotal\<close>; the provider's \<open>updateItem\<close> stores the bare product. The
  earbuds line (199.99, quantity 1) satisfies the predicate; after \<open>updateItem\<close> with
  quantity \<open>0.5\<close> the provider's store and the shadow store hold the total \<open>99.995\<close>,
  while \<open>calculateItemTotal\<close> gives \<open>100\<close>.
\<close>

theorem updateItem_total_not_rounded:
  "sf_isContextValid 3000 ''sf_ctx_1'' world_earbuds
   \<and> deref world_earbuds (cartItems world_earbuds ''sf_ctx_1'') = [earbuds_line]
   \<and> totalPrice earbuds_line
       = calculateItemTotal (unitPrice earbuds_line) (quantity earbuds_line)
   \<and> (\<exists>w'. sf_updateItem 3000 ''sf_ctx_1'' ''item_2'' (1 / 2) world_earbuds
              = (Inr (earbuds_line\<lparr>quantity := 1 / 2, totalPrice := 19999 / 200\<rparr>), w')
         \<and> deref w' (cartItems w' ''sf_ctx_1'')
             = [earbuds_line\<lparr>quantity := 1 / 2, totalPrice := 19999 / 200\<rparr>])
   \<and> (\<exists>c w'. updateItem config gen0 3000 ''cart_0'' ''item_2'' (1 / 2) world_earbuds = (Inr c, w')
         \<and> shadowItems w' ''cart_0''
             = [earbuds_line\<lparr>quantity := 1 / 2, totalPrice := 19999 / 200\<rparr>])
   \<and> calculateItemTotal (19999 / 100) (1 / 2) = 100"
  by (simp add: world_earbuds_def earbuds_line_def shadowItems_def ops scen)

subsection \<open>C9: what validateCart leaves unchanged\<close>

text \<open>
  C9 as stated: \<open>validateCart\<close> changes nothing, also when the cached context has
  expired. On an expired context \<open>validateCart\<close> goes through the recovery of
  \<open>ensureValidContext\<close>: the cart \<open>cart_0\<close>, created at time 1000 and validated at time
  400000, gets the new context \<open>sf_ctx_2\<close> in the provider's map and in the cache.
\<close>

theorem validateCart_mutates_on_recovery_counterexample:
  "contextCache world1 ''cart_0'' = Some 0
   \<and> expiresAt (ctxObjs world1 0) = 301000
   \<and> contexts world1 ''sf_ctx_2'' = None
   \<and> fst (validateCart config gen0 400000 ''cart_0'' world1) = Inr \<lparr>valid = True, errors = []\<rparr>
   \<and> contextCache (snd (validateCart config gen0 400000 ''cart_0'' world1)) ''cart_0'' = Some 1
   \<and> contexts (snd (validateCart config gen0 400000 ''cart_0'' world1)) ''sf_ctx_2'' = Some 1
   \<and> snd (validateCart config gen0 400000 ''cart_0'' world1) \<noteq> world1"
proof -
  have a: "contextCache world1 ''cart_0'' = Some 0
   \<and> expiresAt (ctxObjs world1 0) = 301000
   \<and> contexts world1 ''sf_ctx_2'' = None
   \<and> fst (validateCart config gen0 400000 ''cart_0'' world1) = Inr \<lparr>valid = True, errors = []\<rparr>
   \<and> contextCache (snd (validateCart config gen0 400000 ''cart_0'' world1)) ''cart_0'' = Some 1
   \<and> contexts (snd (validateCart config gen0 400000 ''cart_0'' world1)) ''sf_ctx_2'' = Some 1"
    by (simp add: ops scen validateCartRules_def)
  then have "contexts (snd (validateCart config gen0 400000 ''cart_0'' world1)) ''sf_ctx_2''
      \<noteq> contexts world1 ''sf_ctx_2''" by simp
  then have "snd (validateCart config gen0 400000 ''cart_0'' world1) \<noteq> world1" by metis
  with a show ?thesis by blast
qed

text \<open>
  C9, amended: \<open>validateCart\<close> changes nothing at all when the cart is unknown or its
  cached context has not expired (\<open>now \<le> expiresAt\<close>), whether it succeeds or fails. In
  every case it leaves the shadow store as it was (the map, and the lines of every cart
  when all references are allocated), it leaves the cache entries of the other carts as
  they were, and it keeps the cart in the cache. In every case it also leaves all other
  entries of the provider's context map and item stores unchanged: the TTL, every entry
  of \<open>contexts\<close> and of \<open>cartItems\<close> at a context id other than the one drawn for the new
  context, every context object other than the newly allocated one and every array other
  than the newly allocated one; so, when all references are allocated, the context and
  the item list stored under every other context id are as they were. On an expired
  context (and a positive TTL) it runs the recovery: the provider holds one new context,
  with the drawn id, this cart and the expiry \<open>now + contextTTL\<close>, the cart's cache entry
  points to it, and the live items of the cart are the replayed shadow lines.
\<close>

theorem validateCart_frame:
  "((\<forall>c. contextCache w cart = Some c \<longrightarrow> now \<le> expiresAt (ctxObjs w c))
      \<longrightarrow> snd (validateCart cfg gen now cart w) = w)
   \<and> shadowState (snd (validateCart cfg gen now cart w)) = shadowState w
   \<and> (refs_allocated w
      \<longrightarrow> (\<forall>k. shadowItems (snd (validateCart cfg gen now cart w)) k = shadowItems w k))
   \<and> (\<forall>k. k \<noteq> cart
      \<longrightarrow> contextCache (snd (validateCart cfg gen now cart w)) k = contextCache w k)
   \<and> (contextCache (snd (validateCart cfg gen now cart w)) cart = None
      \<longleftrightarrow> contextCache w cart = None)
   \<and> contextTTL (snd (validateCart cfg gen now cart w)) = contextTTL w
   \<and> (\<forall>k. k \<noteq> ''sf_ctx_'' @ gen 12 (draws w)
      \<longrightarrow> contexts (snd (validateCart cfg gen now cart w)) k = contexts w k
          \<and> cartItems (snd (validateCart cfg gen now cart w)) k = cartItems w k)
   \<and> (\<forall>r. r \<noteq> nextCtx w
      \<longrightarrow> ctxObjs (snd (validateCart cfg gen now cart w)) r = ctxObjs w r)
   \<and> (\<forall>r. r \<noteq> nextArr w
      \<longrightarrow> arrays (snd (validateCart cfg gen now cart w)) r = arrays w r)
   \<and> (refs_allocated w
      \<longrightarrow> (\<forall>k. k \<noteq> ''sf_ctx_'' @ gen 12 (draws w)
            \<longrightarrow> map_option (ctxObjs (snd (validateCart cfg gen now cart w)))
                  (contexts (snd (validateCart cfg gen now cart w)) k)
                = map_option (ctxObjs w) (contexts w k)
              \<and> deref (snd (validateCart cfg gen now cart w))
                  (cartItems (snd (validateCart cfg gen now cart w)) k)
                = deref w (cartItems w k)))
   \<and> (\<forall>c. contextCache w cart = Some c \<and> expiresAt (ctxObjs w c) < now \<and> 0 < contextTTL w
      \<longrightarrow> contextCache (snd (validateCart cfg gen now cart w)) cart = Some (nextCtx w)
          \<and> contexts (snd (validateCart cfg gen now cart w)) (''sf_ctx_'' @ gen 12 (draws w))
              = Some (nextCtx w)
          \<and> ctxObjs (snd (validateCart cfg gen now cart w)) (nextCtx w)
              = \<lparr>contextId = ''sf_ctx_'' @ gen 12 (draws w), cartId = cart,
                 expiresAt = now + contextTTL w, createdAt = now\<rparr>
          \<and> liveItems now cart (snd (validateCart cfg gen now cart w))
              = Some (replayed gen (draws w + 1) (shadowItems w cart)))"
proof -
  let ?w' = "snd (ensureValidContext gen now cart w)"
  let ?new = "''sf_ctx_'' @ gen 12 (draws w)"
  note f = ensureValidContext_frame [of gen now cart w]
  note g = ensureValidContext_provider_frame [of gen now cart w]
  have a: "(\<forall>c. contextCache w cart = Some c \<longrightarrow> now \<le> expiresAt (ctxObjs w c))
      \<longrightarrow> ?w' = w"
    by (cases "contextCache w cart") (auto simp: ensureValidContext_def Let_def)
  have b: "refs_allocated w \<longrightarrow> (\<forall>k. shadowItems ?w' k = shadowItems w k)"
  proof (intro impI allI)
    fix k assume r: "refs_allocated w"
    show "shadowItems ?w' k = shadowItems w k"
    proof (cases "shadowState w k")
      case None
      then show ?thesis using f by (simp add: shadowItems_def deref_def)
    next
      case (Some a)
      with r have "a \<noteq> nextArr w" by (auto simp: refs_allocated_def)
      then show ?thesis using f Some by (simp add: shadowItems_def deref_def)
    qed
  qed
  have p: "refs_allocated w
      \<longrightarrow> (\<forall>k. k \<noteq> ?new
            \<longrightarrow> map_option (ctxObjs ?w') (contexts ?w' k) = map_option (ctxObjs w) (contexts w k)
              \<and> deref ?w' (cartItems ?w' k) = deref w (cartItems w k))"
  proof (intro impI allI)
    fix k assume r: "refs_allocated w" and k: "k \<noteq> ?new"
    from g k have ck: "contexts ?w' k = contexts w k" and ik: "cartItems ?w' k = cartItems w k"
      by simp_all
    have c: "map_option (ctxObjs ?w') (contexts ?w' k) = map_option (ctxObjs w) (contexts w k)"
    proof (cases "contexts w k")
      case None
      then show ?thesis using ck by simp
    next
      case (Some c)
      with r have "c \<noteq> nextCtx w" by (auto simp: refs_allocated_def)
      then show ?thesis using g ck Some by simp
    qed
    have i: "deref ?w' (cartItems ?w' k) = deref w (cartItems w k)"
    proof (cases "cartItems w k")
      case None
      then show ?thesis using ik by (simp add: deref_def)
    next
      case (Some a)
      with r have "a \<noteq> nextArr w" by (auto simp: refs_allocated_def)
      then show ?thesis using f ik Some by (simp add: deref_def)
    qed
    from c i show "map_option (ctxObjs ?w') (contexts ?w' k) = map_option (ctxObjs w) (contexts w k)
              \<and> deref ?w' (cartItems ?w' k) = deref w (cartItems w k)" by simp
  qed
  have r: "\<forall>c. contextCache w cart = Some c \<and> expiresAt (ctxObjs w c) < now \<and> 0 < contextTTL w
      \<longrightarrow> contextCache ?w' cart = Some (nextCtx w)
          \<and> contexts ?w' ?new = Some (nextCtx w)
          \<and> ctxObjs ?w' (nextCtx w)
              = \<lparr>contextId = ?new, cartId = cart,
                 expiresAt = now + contextTTL w, createdAt = now\<rparr>
          \<and> liveItems now cart ?w' = Some (replayed gen (draws w + 1) (shadowItems w cart))"
  proof (intro allI impI)
    fix c
    assume a: "contextCache w cart = Some c \<and> expiresAt (ctxObjs w c) < now \<and> 0 < contextTTL w"
    then have c: "contextCache w cart = Some c" and e: "expiresAt (ctxObjs w c) < now"
      and t: "0 < contextTTL w" by simp_all
    show "contextCache ?w' cart = Some (nextCtx w)
          \<and> contexts ?w' ?new = Some (nextCtx w)
          \<and> ctxObjs ?w' (nextCtx w)
              = \<lparr>contextId = ?new, cartId = cart,
                 expiresAt = now + contextTTL w, createdAt = now\<rparr>
          \<and> liveItems now cart ?w' = Some (replayed gen (draws w + 1) (shadowItems w cart))"
      using t
      by (simp add: ensureValidContext_expired [OF c e t] liveItems_def
          liveContext_def sf_isContextValid_def deref_def)
  qed
  show ?thesis
    unfolding validateCart_snd using a b f g p r by blast
qed

text \<open>
  The cart \<open>cart_0\<close> holding a phone, validated before expiry (time 3000) and after
  (time 400000): the recovery adds the context \<open>sf_ctx_3\<close> and leaves the expired context
  \<open>sf_ctx_1\<close> and its item list in the provider.
\<close>

theorem validateCart_frame_witness:
  "refs_allocated world_phone
   \<and> contextCache world_phone ''cart_0'' = Some 0 \<and> expiresAt (ctxObjs world_phone 0) = 301000
   \<and> snd (validateCart config gen0 3000 ''cart_0'' world_phone) = world_phone
   \<and> shadowItems (snd (validateCart config gen0 400000 ''cart_0'' world_phone)) ''cart_0''
       = shadowItems world_phone ''cart_0''
   \<and> map id_ci (shadowItems world_phone ''cart_0'') = [''item_2'']
   \<and> ''sf_ctx_'' @ gen0 12 (draws world_phone) = ''sf_ctx_3''
   \<and> contexts world_phone ''sf_ctx_1'' = Some 0
   \<and> contexts (snd (validateCart config gen0 400000 ''cart_0'' world_phone)) ''sf_ctx_1'' = Some 0
   \<and> ctxObjs (snd (validateCart config gen0 400000 ''cart_0'' world_phone)) 0
       = ctxObjs world_phone 0
   \<and> deref world_phone (cartItems world_phone ''sf_ctx_1'') = [phone_line]
   \<and> deref (snd (validateCart config gen0 400000 ''cart_0'' world_phone))
        (cartItems (snd (validateCart config gen0 400000 ''cart_0'' world_phone)) ''sf_ctx_1'')
       = [phone_line]
   \<and> contexts (snd (validateCart config gen0 400000 ''cart_0'' world_phone)) ''sf_ctx_3''
       = Some (nextCtx world_phone)"
proof -
  have r: "refs_allocated world_phone"
    by (simp add: world_phone_def refs_allocated_def ops scen)
  have a: "contextCache world_phone ''cart_0'' = Some 0"
    and b: "expiresAt (ctxObjs world_phone 0) = 301000"
    and s: "map id_ci (shadowItems world_phone ''cart_0'') = [''item_2'']"
    and n: "''sf_ctx_'' @ gen0 12 (draws world_phone) = ''sf_ctx_3''"
    and c: "contexts world_phone ''sf_ctx_1'' = Some 0"
    and d: "deref world_phone (cartItems world_phone ''sf_ctx_1'') = [phone_line]"
    and t: "contextTTL world_phone = 300000"
    and x: "nextCtx world_phone = 1"
    by (simp_all add: world_phone_def shadowItems_def deref_def phone_line_def ops scen)
  have ne: "''sf_ctx_1'' \<noteq> ''sf_ctx_'' @ gen0 12 (draws world_phone)"
    and nc: "0 \<noteq> nextCtx world_phone"
    and e3: "\<forall>c. contextCache world_phone ''cart_0'' = Some c
        \<longrightarrow> 3000 \<le> expiresAt (ctxObjs world_phone c)"
    and e4: "contextCache world_phone ''cart_0'' = Some 0 \<and> expiresAt (ctxObjs world_phone 0) < 400000
        \<and> 0 < contextTTL world_phone"
    using a b n t x by simp_all
  let ?w' = "snd (validateCart config gen0 400000 ''cart_0'' world_phone)"
  note A = validateCart_frame [of world_phone "''cart_0''" 3000 config gen0]
  note B = validateCart_frame [of world_phone "''cart_0''" 400000 config gen0]
  from A [THEN conjunct1, THEN mp, OF e3]
  have 1: "snd (validateCart config gen0 3000 ''cart_0'' world_phone) = world_phone" .
  from B [THEN conjunct2, THEN conjunct2, THEN conjunct1] r
  have 2: "shadowItems ?w' ''cart_0'' = shadowItems world_phone ''cart_0''"
    by simp
  note B6 = B [THEN conjunct2, THEN conjunct2, THEN conjunct2, THEN conjunct2, THEN conjunct2,
      THEN conjunct2]
  from B6 [THEN conjunct1, rule_format, OF ne]
  have 3: "contexts ?w' ''sf_ctx_1'' = contexts world_phone ''sf_ctx_1''"
    by simp
  from B6 [THEN conjunct2, THEN conjunct1, rule_format, OF nc]
  have 4: "ctxObjs ?w' 0 = ctxObjs world_phone 0" .
  from B6 [THEN conjunct2, THEN conjunct2, THEN conjunct2, THEN conjunct1, rule_format, OF r ne]
  have 5: "deref ?w' (cartItems ?w' ''sf_ctx_1'')
      = deref world_phone (cartItems world_phone ''sf_ctx_1'')"
    by simp
  from B6 [THEN conjunct2, THEN conjunct2, THEN conjunct2, THEN conjunct2, rule_format, OF e4]
  have 6: "contexts ?w' (''sf_ctx_'' @ gen0 12 (draws world_phone))
      = Some (nextCtx world_phone)"
    by simp
  show ?thesis
    using r a b s n c d 1 2 3 4 5 6 by simp
qed
subsection \<open>C10: updateItem accepts every quantity\<close>

text \<open>
  C10 as stated: \<open>updateItem\<close> stores every quantity, and \<open>validateCart\<close> later
  reports the quantities that break the positive-bounded-quantity rule, those above the
  per-line maximum of 10 included. \<open>validateCartRules\<close> has no upper bound on a quantity:
  after \<open>updateItem\<close> with quantity 11, \<open>validateCart\<close> finds the cart valid.
\<close>

theorem validateCart_accepts_quantity_above_maximum_counterexample:
  "\<exists>c w'. updateItem config gen0 3000 ''cart_0'' ''item_2'' 11 world_earbuds = (Inr c, w')
     \<and> map quantity (items c) = [11]
     \<and> validateCart config gen0 3000 ''cart_0'' w' = (Inr \<lparr>valid = True, errors = []\<rparr>, w')"
  by (simp add: world_earbuds_def ops scen validateCartRules_def isInteger_def)

text \<open>
  C10, amended: on a cart with a live context whose items contain a line with identifier
  \<open>itemId\<close>, \<open>updateItem\<close> succeeds for every number \<open>q\<close> (zero, negative, fractional
  or above 10: no rule and no bound is checked). The first live line with that identifier
  then has quantity \<open>q\<close> and total price \<open>unitPrice * q\<close>, the other live lines are
  unchanged, the shadow line with that identifier (if there is one) is replaced by the
  updated line, and the returned view shows the shadow store. A later \<open>validateCart\<close>
  reports invalid quantities exactly when some live line has a quantity that is not a
  positive integer: it reports \<open>q\<close> when \<open>q \<le> 0\<close> or \<open>q\<close> is fractional, and it
  reports no quantity for being above 10.
\<close>

theorem updateItem_stores_any_quantity:
  assumes live: "liveItems now cart w = Some its"
    and idx: "findIndex (\<lambda>i. id_ci i = itemId) its = Some k"
  shows "\<exists>c w' v. updateItem cfg gen now cart itemId q w = (Inr c, w')
           \<and> k < length its \<and> id_ci (its ! k) = itemId
           \<and> liveItems now cart w'
               = Some (its[k := (its ! k)\<lparr>quantity := q, totalPrice := unitPrice (its ! k) * q\<rparr>])
           \<and> shadowItems w' cart
               = (case findIndex (\<lambda>i. id_ci i = itemId) (shadowItems w cart) of
                    None \<Rightarrow> shadowItems w cart
                  | Some j \<Rightarrow> (shadowItems w cart)
                      [j := (its ! k)\<lparr>quantity := q, totalPrice := unitPrice (its ! k) * q\<rparr>])
           \<and> items c = shadowItems w' cart
           \<and> validateCart cfg gen now cart w' = (Inr v, w')
           \<and> (msg_invalid_quantities \<in> set (errors v)
                \<longleftrightarrow> (\<exists>i \<in> set (its[k := (its ! k)\<lparr>quantity := q,
                                       totalPrice := unitPrice (its ! k) * q\<rparr>]).
                       quantity i \<le> 0 \<or> quantity i \<notin> \<int>))
           \<and> (q \<le> 0 \<or> q \<notin> \<int> \<longrightarrow> \<not> valid v \<and> msg_invalid_quantities \<in> set (errors v))"
proof -
  let ?u = "(its ! k)\<lparr>quantity := q, totalPrice := unitPrice (its ! k) * q\<rparr>"
  from updateItem_live [OF live idx, of cfg gen q] obtain c w' where
    u: "updateItem cfg gen now cart itemId q w = (Inr c, w')"
      "k < length its" "id_ci (its ! k) = itemId"
      "liveItems now cart w' = Some (its[k := ?u])"
      "shadowItems w' cart
         = (case findIndex (\<lambda>i. id_ci i = itemId) (shadowItems w cart) of
              None \<Rightarrow> shadowItems w cart
            | Some j \<Rightarrow> (shadowItems w cart)[j := ?u])"
      "items c = shadowItems w' cart"
    by blast
  let ?v = "validateCartRules cfg (its[k := ?u])"
  have v: "validateCart cfg gen now cart w' = (Inr ?v, w')"
    by (rule validateCart_live [OF u(4)])
  have r: "msg_invalid_quantities \<in> set (errors ?v)
             \<longleftrightarrow> (\<exists>i \<in> set (its[k := ?u]). quantity i \<le> 0 \<or> quantity i \<notin> \<int>)"
    by (rule invalid_quantities_reported)
  have m: "?u \<in> set (its[k := ?u])"
    using u(2) by (simp add: set_update_memI)
  have q: "q \<le> 0 \<or> q \<notin> \<int> \<longrightarrow> \<not> valid ?v \<and> msg_invalid_quantities \<in> set (errors ?v)"
  proof
    assume "q \<le> 0 \<or> q \<notin> \<int>"
    then have "\<exists>i \<in> set (its[k := ?u]). quantity i \<le> 0 \<or> quantity i \<notin> \<int>"
      using m by (intro bexI [of _ ?u]) simp_all
    then have e: "msg_invalid_quantities \<in> set (errors ?v)" using r by simp
    then have "errors ?v \<noteq> []" by auto
    then have "\<not> valid ?v" by (simp add: validateCartRules_def Let_def)
    with e show "\<not> valid ?v \<and> msg_invalid_quantities \<in> set (errors ?v)" by simp
  qed
  show ?thesis
    using u v r q by blast
qed

text \<open>
  The line \<open>item_2\<close> of the cart \<open>cart_0\<close>, set to the quantity \<open>-3.5\<close>: the update is
  stored, and the validation that follows reports it.
\<close>

theorem updateItem_stores_any_quantity_witness:
  "liveItems 3000 ''cart_0'' world_earbuds = Some [earbuds_line]
   \<and> findIndex (\<lambda>i. id_ci i = ''item_2'') [earbuds_line] = Some 0
   \<and> (\<exists>c w' v. updateItem config gen0 3000 ''cart_0'' ''item_2'' (- 7 / 2) world_earbuds = (Inr c, w')
         \<and> liveItems 3000 ''cart_0'' w'
             = Some [earbuds_line\<lparr>quantity := - 7 / 2, totalPrice := - 139993 / 200\<rparr>]
         \<and> items c = [earbuds_line\<lparr>quantity := - 7 / 2, totalPrice := - 139993 / 200\<rparr>]
         \<and> validateCart config gen0 3000 ''cart_0'' w' = (Inr v, w')
         \<and> \<not> valid v \<and> msg_invalid_quantities \<in> set (errors v))"
proof -
  have i: "findIndex (\<lambda>i. id_ci i = ''item_2'') [earbuds_line] = Some 0"
    by (simp add: earbuds_line_def)
  have u: "unitPrice earbuds_line = 19999 / 100"
    by (simp add: earbuds_line_def)
  show ?thesis
    using updateItem_stores_any_quantity [OF live_earbuds i, of config gen0 "- 7 / 2"]
      live_earbuds i
    by (auto simp: shadow_earbuds i u)
qed

end
